theory Spec2Isabelle
  imports Complex_Main "HOL-Library.Multiset"
begin

text \<open>
  A model of the aggregation and caching core of the hotel booking back end:
  \<open>SearchService\<close> (content cache, cheapest offer per property, listing cards),
  \<open>OfferService\<close> (offers of one property with the short-lived room-stay cache),
  \<open>OAuthService\<close> (the access token and its two cache tiers) and
  \<open>ImageProxyService\<close> (proxy tokens and the image cache). Each method is a
  function of the upstream responses and of the state it reads and writes; a rejected
  promise or a thrown exception is an \<open>Inl\<close> result. Calls run one at a time.
\<close>

section \<open>JavaScript numbers\<close>

text \<open>
  Prices and totals are JavaScript numbers. \<open>rsTotal\<close> may return
  \<open>Number.POSITIVE_INFINITY\<close>, so a number is either finite (given by its real value;
  the rounding of IEEE doubles is not modelled) or positive infinity. Negative infinity
  and NaN cannot arise from the operations below on these values, and upstream JSON
  cannot carry them.
\<close>

datatype jsnum = Num real | PosInf

instantiation jsnum :: linorder
begin

definition less_eq_jsnum :: "jsnum \<Rightarrow> jsnum \<Rightarrow> bool" where
  "less_eq_jsnum a b =
     (case b of PosInf \<Rightarrow> True
      | Num y \<Rightarrow> (case a of PosInf \<Rightarrow> False | Num x \<Rightarrow> x \<le> y))"

definition less_jsnum :: "jsnum \<Rightarrow> jsnum \<Rightarrow> bool" where
  "less_jsnum a b =
     (case a of PosInf \<Rightarrow> False
      | Num x \<Rightarrow> (case b of PosInf \<Rightarrow> True | Num y \<Rightarrow> x < y))"

instance
  by standard (auto simp: less_eq_jsnum_def less_jsnum_def split: jsnum.splits)

end

text \<open>
  \<open>Math.round\<close> rounds to the nearest integer, a tie towards \<open>+\<infinity>\<close>; that is
  \<open>round\<close> of HOL (\<open>\<lfloor>x + 1/2\<rfloor>\<close>). \<open>Math.max(1, x)\<close> and the division by a
  positive count keep infinity infinite.
\<close>

definition Math_round :: "jsnum \<Rightarrow> jsnum" where
  "Math_round a = (case a of Num x \<Rightarrow> Num (of_int (round x)) | PosInf \<Rightarrow> PosInf)"

definition Math_max1 :: "jsnum \<Rightarrow> jsnum" where
  "Math_max1 a = (case a of Num x \<Rightarrow> Num (max 1 x) | PosInf \<Rightarrow> PosInf)"

definition js_div :: "jsnum \<Rightarrow> int \<Rightarrow> jsnum" where
  \<comment> \<open>\<open>a / n\<close> for a positive integer \<open>n\<close>\<close>
  "js_div a n = (case a of Num x \<Rightarrow> Num (x / of_int n) | PosInf \<Rightarrow> PosInf)"

section \<open>Numbers in strings and dates (\<open>utils/date.ts\<close>, the \<open>Date\<close> constructor)\<close>

text \<open>
  A number in a template string or under \<open>String\<close>: counts, ages, years, months and
  days are integers here, and \<open>String\<close> writes an integer of absolute value below
  \<open>10\<^sup>2\<^sup>1\<close> in decimal. (The controllers admit any finite number from 1 for the adult
  count and from 0 for an age; fractions and larger numbers are outside this model.)
\<close>

definition digitChar :: "nat \<Rightarrow> char" where
  "digitChar n = ''0123456789'' ! n"

function showNat :: "nat \<Rightarrow> string" where
  "showNat n =
     (if n < 10 then [digitChar n]
      else showNat (n div 10) @ [digitChar (n mod 10)])"
  by pat_completeness auto
termination
  by (relation "measure (\<lambda>n. n)") auto

declare showNat.simps [simp del]

definition showInt :: "int \<Rightarrow> string" where
  "showInt i = (if i < 0 then CHR ''-'' # showNat (nat (- i)) else showNat (nat i))"

text \<open>
  \<open>parseDatesRange\<close> checks that both dates exist in the calendar and writes each one
  with \<open>format\<close>: the year as it is, the month and the day padded to two digits
  (\<open>String(value).padStart(2, '0')\<close>). A date is a triple of year, month (from 1) and
  day.
\<close>

definition pad :: "nat \<Rightarrow> string" where
  "pad v = (let s = showNat v in replicate (2 - length s) CHR ''0'' @ s)"

definition formatDate :: "nat \<times> nat \<times> nat \<Rightarrow> string" where
  "formatDate date =
     (case date of (year, month, day) \<Rightarrow> showNat year @ ''-'' @ pad month @ ''-'' @ pad day)"

text \<open>
  \<open>new Date(s)\<close> for a string \<open>YYYY-MM-DDT00:00:00\<close>, after ECMAScript: the string
  is in the date-time format without a zone offset, so it is read as local time. The
  fields have to be digits with a month from 01 to 12 and a day from 01 to 31 (a day past
  the end of the month runs into the next month, as in V8). \<open>MakeDay\<close> gives the
  number of days from the epoch to the day: the days to the first of January by the
  closed formula \<open>DayFromYear\<close>, the days to the first of the month by the table of
  \<open>MonthFromTime\<close>, and the day of the month. The time value is
  \<open>UTC(t) = t - LocalTZA(t, false)\<close> for the local time \<open>t\<close> of that midnight, where
  \<open>LocalTZA\<close> is the offset, in milliseconds, of the zone of the process at a local
  time. For every other string \<open>Date_local\<close> is \<open>None\<close>: an invalid date, or one of the
  further forms an engine reads, which \<open>parseDatesRange\<close> does not write for the years
  1000 to 9999.
\<close>

definition digitVal :: "char \<Rightarrow> nat option" where
  "digitVal c = (if c \<in> set ''0123456789'' then Some (of_char c - 48) else None)"

fun readDigits :: "nat \<Rightarrow> string \<Rightarrow> nat option" where
  "readDigits acc [] = Some acc"
| "readDigits acc (c # cs) =
     (case digitVal c of Some d \<Rightarrow> readDigits (acc * 10 + d) cs | None \<Rightarrow> None)"

definition parseDateTime :: "string \<Rightarrow> (nat \<times> nat \<times> nat) option" where
  "parseDateTime s =
     (if length s = 19 \<and> take 1 (drop 4 s) = ''-'' \<and> take 1 (drop 7 s) = ''-''
         \<and> drop 10 s = ''T00:00:00''
      then (case (readDigits 0 (take 4 s), readDigits 0 (take 2 (drop 5 s)),
                  readDigits 0 (take 2 (drop 8 s))) of
              (Some y, Some m, Some d) \<Rightarrow>
                if 1 \<le> m \<and> m \<le> 12 \<and> 1 \<le> d \<and> d \<le> 31 then Some (y, m, d) else None
            | _ \<Rightarrow> None)
      else None)"

definition InLeapYear :: "int \<Rightarrow> bool" where
  "InLeapYear y = (y mod 4 = 0 \<and> (y mod 100 \<noteq> 0 \<or> y mod 400 = 0))"

definition DayFromYear :: "int \<Rightarrow> int" where
  "DayFromYear y = 365 * (y - 1970) + (y - 1969) div 4 - (y - 1901) div 100 + (y - 1601) div 400"

definition monthStart :: "bool \<Rightarrow> nat \<Rightarrow> int" where
  \<comment> \<open>the day within the year on which month \<open>m\<close> (from 0) begins\<close>
  "monthStart leap m =
     (let l = (if leap then 1 else 0)
      in [0, 31, 59 + l, 90 + l, 120 + l, 151 + l, 181 + l, 212 + l, 243 + l, 273 + l,
          304 + l, 334 + l] ! m)"

definition MakeDay :: "int \<Rightarrow> nat \<Rightarrow> int \<Rightarrow> int" where
  \<comment> \<open>for a month from 0 to 11\<close>
  "MakeDay year month date = DayFromYear year + monthStart (InLeapYear year) month + date - 1"

definition Date_local :: "(int \<Rightarrow> int) \<Rightarrow> string \<Rightarrow> int option" where
  "Date_local LocalTZA s =
     (case parseDateTime s of
        None \<Rightarrow> None
      | Some (y, m, d) \<Rightarrow>
          (let t = MakeDay (int y) (m - 1) (int d) * 86400000 in Some (t - LocalTZA t)))"

text \<open>
  \<open>+new Date(s)\<close>, the time value as a number. For an invalid date it is NaN, which
  the numbers of this model do not have: \<open>dateMsIn\<close> is left unspecified there.
\<close>

definition dateMsIn :: "(int \<Rightarrow> int) \<Rightarrow> string \<Rightarrow> int" where
  "dateMsIn LocalTZA s = the (Date_local LocalTZA s)"

section \<open>Shared types (\<open>shared/types.ts\<close>)\<close>

text \<open>
  Optional fields are options. The records keep the fields the operations below read to
  decide something; the remaining display fields of the source types (images, address,
  amenities, meal and cancellation texts) are copied through without influencing any
  result stated here and are left out.
\<close>

record GuestCount =
  adultCount :: int
  childAges :: "int list option"

record TLRoomStay =
  propertyId :: string
  priceBeforeTax :: "real option"
  priceAfterTax :: "real option"
  currencyCode :: "string option"
  availability :: "int option"
  checksum :: "string option"
  ratePlanId :: "string option"

record TLPropertyContent =
  content_id :: string
  content_name :: string
  content_currency :: "string option"
  content_stars :: "int option"

record HotelCard =
  card_id :: string
  card_name :: string
  card_stars :: "int option"
  price_value :: jsnum
  price_currency :: string

record RoomOffer =
  offer_total :: jsnum
  perNight :: jsnum
  offer_currency :: string
  offer_ratePlanId :: "string option"
  offer_availability :: "int option"

text \<open>
  Exceptions are values. \<open>NotFoundException\<close> carries its message; \<open>UpstreamError\<close> is
  any rejection of an authorised HTTP call (\<open>oauthService.get\<close>, \<open>oauthService.post\<close>,
  \<open>axios.get\<close>); \<open>OAuthError\<close> is the \<open>Error\<close> thrown by \<open>getAccessToken\<close>.
\<close>

datatype error =
  NotFoundException string
  | UpstreamError string
  | OAuthError string

section \<open>Upstream endpoints and the key-value store\<close>

text \<open>
  The upstream API is a record of functions, one per endpoint, each returning \<open>Inl\<close>
  when the authorised call rejects. The key-value store holds JSON text under string
  keys; it is modelled by one typed map per kind of value (property content under the
  keys \<open>hotel:<id>\<close>, room-stay lists under the keys \<open>search:room-stays:<request key>\<close>;
  the two prefixes never meet). The store is taken to be available: its calls do not
  throw, and expiry is not modelled (an expired entry is an absent one).
  \<open>inFlightRequests\<close> is the map of pending pricing fetches of \<open>OfferService\<close>; an entry
  holds what the pending promise settles with. \<open>contentFetches\<close> is a log of the ids
  requested from the content endpoint; the code does not have it, and it is only written.
\<close>

text \<open>
  The body of one batched pricing query, and that endpoint as a function of the body:
  \<open>Inl\<close> when the call rejects, otherwise the response's \<open>roomStays\<close> (\<open>None\<close> when
  the response or the field is missing: \<open>resp?.roomStays ?? []\<close>).
\<close>

record SearchBody =
  propertyIds :: "string list"
  adults :: int
  arrivalDate :: string
  departureDate :: string
  pricePreference_currencyCode :: string
  pricePreference_minPrice :: int
  pricePreference_maxPrice :: int

type_synonym search_post = "SearchBody \<Rightarrow> error + TLRoomStay list option"

record RoomStaysQuery =
  q_propertyId :: string
  q_adults :: int
  q_childAges :: "int list"
  q_arrivalDate :: string
  q_departureDate :: string
  q_currencyCode :: string

record Upstream =
  contentGet :: "string \<Rightarrow> error + TLPropertyContent"
  geoGet :: "string \<Rightarrow> error + string list option"
  searchPost :: search_post
  roomStaysGet :: "RoomStaysQuery \<Rightarrow> error + TLRoomStay list option"
  roomStaysPost :: "RoomStaysQuery \<Rightarrow> error + TLRoomStay list option"

record World =
  contentStore :: "string \<rightharpoonup> TLPropertyContent"
  roomStaysStore :: "string \<rightharpoonup> TLRoomStay list"
  inFlightRequests :: "string \<rightharpoonup> (error + TLRoomStay list option)"
  contentFetches :: "string list"

section \<open>SearchService (\<open>search.service.ts\<close>)\<close>

subsection \<open>Utilities\<close>

definition rsTotal :: "TLRoomStay \<Rightarrow> jsnum" where
  "rsTotal rs =
     (case priceBeforeTax rs of
        Some x \<Rightarrow> Num x
      | None \<Rightarrow> (case priceAfterTax rs of Some y \<Rightarrow> Num y | None \<Rightarrow> PosInf))"

text \<open>
  \<open>diffNights(a, b)\<close> reads both dates through \<open>+new Date(s + 'T00:00:00')\<close>. The
  services take that conversion as the parameter \<open>dateMs\<close>; in a process whose zone
  has the offsets \<open>LocalTZA\<close> it is \<open>dateMsIn LocalTZA\<close>.
\<close>

definition diffNights :: "(string \<Rightarrow> int) \<Rightarrow> string \<Rightarrow> string \<Rightarrow> int" where
  "diffNights dateMs a b =
     (let ms = dateMs (b @ ''T00:00:00'') - dateMs (a @ ''T00:00:00'')
      in max 1 (round (real_of_int ms / 86400000)))"

text \<open>\<open>x || y || 'RUB'\<close>: an absent or empty string falls through.\<close>

definition currencyOf :: "TLRoomStay \<Rightarrow> TLPropertyContent \<Rightarrow> string" where
  "currencyOf rs content =
     (case currencyCode rs of
        Some c \<Rightarrow> if c \<noteq> [] then c else
          (case content_currency content of
             Some d \<Rightarrow> if d \<noteq> [] then d else ''RUB'' | None \<Rightarrow> ''RUB'')
      | None \<Rightarrow>
          (case content_currency content of
             Some d \<Rightarrow> if d \<noteq> [] then d else ''RUB'' | None \<Rightarrow> ''RUB''))"

definition perNightPrice :: "jsnum \<Rightarrow> int \<Rightarrow> jsnum" where
  \<comment> \<open>\<open>Math.max(1, Math.round(priceTotal / Math.max(1, nights)))\<close>\<close>
  "perNightPrice priceTotal nights = Math_max1 (Math_round (js_div priceTotal (max 1 nights)))"

definition buildCard :: "TLPropertyContent \<Rightarrow> TLRoomStay \<Rightarrow> int \<Rightarrow> GuestCount \<Rightarrow> HotelCard" where
  "buildCard content rs nights guests =
     (let priceTotal = rsTotal rs;
          perNightValue = perNightPrice priceTotal nights;
          currency = currencyOf rs content
      in \<lparr> card_id = content_id content,
           card_name = content_name content,
           card_stars = content_stars content,
           price_value = perNightValue,
           price_currency = currency \<rparr>)"

subsection \<open>Search aggregator\<close>

definition CHUNK :: nat where
  "CHUNK = 200"

definition searchBody :: "string list \<Rightarrow> string \<Rightarrow> string \<Rightarrow> GuestCount \<Rightarrow> string \<Rightarrow> SearchBody" where
  "searchBody batch arrival departure guests currency =
     \<lparr> propertyIds = batch,
       adults = adultCount guests,
       arrivalDate = arrival,
       departureDate = departure,
       pricePreference_currencyCode = currency,
       pricePreference_minPrice = 0,
       pricePreference_maxPrice = 100000 \<rparr>"

text \<open>One turn of \<open>for (const rs of list)\<close>: keep the cheaper of \<open>rs\<close> and the entry held.\<close>

definition cheaper :: "(string \<rightharpoonup> TLRoomStay) \<Rightarrow> TLRoomStay \<Rightarrow> (string \<rightharpoonup> TLRoomStay)" where
  "cheaper out rs =
     (let total = rsTotal rs;
          cur = out (propertyId rs);
          curTotal = (case cur of Some c \<Rightarrow> rsTotal c | None \<Rightarrow> PosInf)
      in if cur = None \<or> total < curTotal then out(propertyId rs \<mapsto> rs) else out)"

fun groupCheapest :: "(string \<rightharpoonup> TLRoomStay) \<Rightarrow> TLRoomStay list \<Rightarrow> (string \<rightharpoonup> TLRoomStay)" where
  "groupCheapest out [] = out"
| "groupCheapest out (rs # list) = groupCheapest (cheaper out rs) list"

text \<open>
  The loop \<open>for (let i = 0; i < ids.length; i += CHUNK)\<close>. The awaited \<open>post\<close> is not
  inside a \<open>try\<close>: a rejection leaves the loop and the method.
\<close>

function chunkLoop ::
  "search_post \<Rightarrow> string list \<Rightarrow> string \<Rightarrow> string \<Rightarrow> GuestCount \<Rightarrow> string \<Rightarrow> nat
     \<Rightarrow> (string \<rightharpoonup> TLRoomStay) \<Rightarrow> error + (string \<rightharpoonup> TLRoomStay)" where
  "chunkLoop post ids arrival departure guests currency i out =
     (if i < length ids then
        (let batch = take CHUNK (drop i ids);
             body = searchBody batch arrival departure guests currency
         in case post body of
              Inl e \<Rightarrow> Inl e
            | Inr resp \<Rightarrow>
                (let list = (case resp of Some l \<Rightarrow> l | None \<Rightarrow> [])
                 in chunkLoop post ids arrival departure guests currency (i + CHUNK)
                      (groupCheapest out list)))
      else Inr out)"
  by pat_completeness auto
termination
  by (relation "measure (\<lambda>(post, ids, arrival, departure, guests, currency, i, out). length ids - i)")
     (auto simp: CHUNK_def)

declare chunkLoop.simps [simp del]

definition getCheapestByPropertyIds ::
  "search_post \<Rightarrow> string list \<Rightarrow> string \<Rightarrow> string \<Rightarrow> GuestCount \<Rightarrow> string
     \<Rightarrow> error + (string \<rightharpoonup> TLRoomStay)" where
  "getCheapestByPropertyIds post ids arrival departure guests currency =
     chunkLoop post ids arrival departure guests currency 0 Map.empty"

subsection \<open>Content and its cache\<close>

definition contentCacheKey :: "string \<Rightarrow> string" where
  "contentCacheKey pid = ''hotel:'' @ pid"

text \<open>
  \<open>fetchAndCacheContent\<close> catches every failure of the fetch and returns \<open>null\<close>; on
  success it writes the cache and returns the data.
\<close>

definition fetchAndCacheContent :: "Upstream \<Rightarrow> World \<Rightarrow> string \<Rightarrow> TLPropertyContent option \<times> World" where
  "fetchAndCacheContent up w pid =
     (let w1 = w\<lparr> contentFetches := contentFetches w @ [pid] \<rparr>
      in case contentGet up pid of
           Inr data \<Rightarrow>
             (Some data, w1\<lparr> contentStore := (contentStore w1)(contentCacheKey pid \<mapsto> data) \<rparr>)
         | Inl e \<Rightarrow> (None, w1))"

record ContentResult =
  cached :: bool
  data :: TLPropertyContent
  stale :: "bool option"

definition getPropertyContent ::
  "Upstream \<Rightarrow> World \<Rightarrow> string \<Rightarrow> bool \<Rightarrow> (error + ContentResult) \<times> World" where
  "getPropertyContent up w pid refresh =
     (let cachedv = contentStore w (contentCacheKey pid)
      in case (if refresh then None else cachedv) of
           Some c \<Rightarrow> (Inr \<lparr> cached = True, data = c, stale = None \<rparr>, w)
         | None \<Rightarrow>
             (let (fresh, w') = fetchAndCacheContent up w pid
              in case fresh of
                   Some f \<Rightarrow> (Inr \<lparr> cached = False, data = f, stale = None \<rparr>, w')
                 | None \<Rightarrow>
                     (case cachedv of
                        Some c \<Rightarrow> (Inr \<lparr> cached = True, data = c, stale = Some True \<rparr>, w')
                      | None \<Rightarrow>
                          (Inl (NotFoundException (''Property '' @ pid @ '' content not available'')),
                           w'))))"

text \<open>
  \<open>getContentForIds\<close>: the ids found in the cache, then the misses fetched. The source
  starts the fetches of ten misses at a time and awaits them together; every fetch
  settles with a value (never a rejection), so the map and the cache they leave are those
  of fetching the misses one after the other.
\<close>

fun fetchMisses ::
  "Upstream \<Rightarrow> (string \<rightharpoonup> TLPropertyContent) \<times> World \<Rightarrow> string list
     \<Rightarrow> (string \<rightharpoonup> TLPropertyContent) \<times> World" where
  "fetchMisses up (result, w) [] = (result, w)"
| "fetchMisses up (result, w) (pid # rest) =
     (let (c, w') = fetchAndCacheContent up w pid
      in fetchMisses up ((case c of Some x \<Rightarrow> result(pid \<mapsto> x) | None \<Rightarrow> result), w') rest)"

definition getContentForIds ::
  "Upstream \<Rightarrow> World \<Rightarrow> string list \<Rightarrow> (string \<rightharpoonup> TLPropertyContent) \<times> World" where
  "getContentForIds up w ids =
     (let result = (\<lambda>pid. if pid \<in> set ids then contentStore w (contentCacheKey pid) else None);
          misses = filter (\<lambda>pid. contentStore w (contentCacheKey pid) = None) ids
      in fetchMisses up (result, w) misses)"

subsection \<open>The listing\<close>

record ListOpts =
  opt_currency :: "string option"
  opt_limit :: "nat option"
  opt_offset :: "nat option"

definition slice :: "nat \<Rightarrow> nat \<Rightarrow> 'a list \<Rightarrow> 'a list" where
  \<comment> \<open>\<open>xs.slice(start, end)\<close> for non-negative integers\<close>
  "slice start end xs = take (end - start) (drop start xs)"

definition joinCards ::
  "(string \<rightharpoonup> TLPropertyContent) \<Rightarrow> (string \<rightharpoonup> TLRoomStay) \<Rightarrow> int \<Rightarrow> GuestCount
     \<Rightarrow> string list \<Rightarrow> HotelCard list" where
  \<comment> \<open>the loop \<open>for (const id of sliced)\<close> with its \<open>continue\<close>\<close>
  "joinCards contentById cheapestById nights guests sliced =
     List.map_filter
       (\<lambda>pid. case contentById pid of
                None \<Rightarrow> None
              | Some content \<Rightarrow>
                  (case cheapestById pid of
                     None \<Rightarrow> None
                   | Some offer \<Rightarrow> Some (buildCard content offer nights guests)))
       sliced"

text \<open>
  \<open>cards.sort((a, b) => a.price.value - b.price.value)\<close>: the sort is stable, and the
  comparator is positive exactly when \<open>b\<close>'s value is below \<open>a\<close>'s (the difference of
  two infinities is NaN, which the sort reads as equal), so the result is the stable
  sort by the value.
\<close>

definition sortCards :: "HotelCard list \<Rightarrow> HotelCard list" where
  "sortCards cards = sort_key price_value cards"

definition getHotelsList ::
  "Upstream \<Rightarrow> (string \<Rightarrow> int) \<Rightarrow> World \<Rightarrow> string \<Rightarrow> string \<Rightarrow> string \<Rightarrow> GuestCount \<Rightarrow> ListOpts
     \<Rightarrow> (error + HotelCard list) \<times> World" where
  "getHotelsList up dateMs w cityId arrival departure guests opts =
     (let currency = (case opt_currency opts of Some c \<Rightarrow> c | None \<Rightarrow> ''RUB'')
      in case geoGet up cityId of
           Inl e \<Rightarrow> (Inl e, w)
         | Inr resp \<Rightarrow>
             (let ids = (case resp of Some l \<Rightarrow> l | None \<Rightarrow> [])
              in if ids = [] then (Inr [], w)
                 else
                   (let start = (case opt_offset opts of Some n \<Rightarrow> n | None \<Rightarrow> 0);
                        end = (case opt_limit opts of
                                 Some n \<Rightarrow> if n \<noteq> 0 then start + n else length ids
                               | None \<Rightarrow> length ids);
                        sliced = slice start end ids;
                        (contentById, w') = getContentForIds up w sliced
                    in case getCheapestByPropertyIds (searchPost up) sliced arrival departure
                              guests currency of
                         Inl e \<Rightarrow> (Inl e, w')
                       | Inr cheapestById \<Rightarrow>
                           (let nights = diffNights dateMs arrival departure;
                                cards = joinCards contentById cheapestById nights guests sliced
                            in (Inr (sortCards cards), w')))))"

section \<open>OfferService (\<open>offer.controller.ts\<close>, \<open>offer.service.ts\<close>)\<close>

definition mapRoomStayToOffer :: "TLPropertyContent \<Rightarrow> TLRoomStay \<Rightarrow> int \<Rightarrow> RoomOffer" where
  "mapRoomStayToOffer content rs nights =
     (let currency = currencyOf rs content;
          total = rsTotal rs;
          perNightValue = perNightPrice total nights
      in \<lparr> offer_total = total,
           perNight = perNightValue,
           offer_currency = currency,
           offer_ratePlanId = ratePlanId rs,
           offer_availability = availability rs \<rparr>)"

fun joinComma :: "string list \<Rightarrow> string" where
  "joinComma [] = []"
| "joinComma [x] = x"
| "joinComma (x # y # ys) = x @ '','' @ joinComma (y # ys)"

text \<open>
  The request key. \<open>(guests.childAges ?? []).sort(...)\<close> sorts the caller's array in
  place, so the fetch that follows sees the sorted ages: \<open>sortedGuests\<close>.
\<close>

definition sortedGuests :: "GuestCount \<Rightarrow> GuestCount" where
  "sortedGuests guests = guests\<lparr> childAges := map_option sort (childAges guests) \<rparr>"

definition requestKey :: "string \<Rightarrow> string \<Rightarrow> string \<Rightarrow> GuestCount \<Rightarrow> string \<Rightarrow> string" where
  "requestKey pid arrival departure guests currency =
     (let childAgesStr =
            joinComma (map showInt (sort (case childAges guests of Some l \<Rightarrow> l | None \<Rightarrow> [])))
      in ''rs:'' @ pid @ '':'' @ arrival @ '':'' @ departure @ '':'' @ showInt (adultCount guests)
           @ '':'' @ childAgesStr @ '':'' @ currency)"

definition roomStaysCacheKey :: "string \<Rightarrow> string \<Rightarrow> string \<Rightarrow> GuestCount \<Rightarrow> string \<Rightarrow> string" where
  "roomStaysCacheKey pid arrival departure guests currency =
     ''search:room-stays:'' @ requestKey pid arrival departure guests currency"

text \<open>\<open>fetchRoomStays\<close>: the GET, and the POST when the GET rejects.\<close>

definition fetchRoomStays ::
  "Upstream \<Rightarrow> string \<Rightarrow> string \<Rightarrow> string \<Rightarrow> GuestCount \<Rightarrow> string \<Rightarrow> error + TLRoomStay list option" where
  "fetchRoomStays up pid arrival departure guests currency =
     (let q = \<lparr> q_propertyId = pid,
                 q_adults = adultCount guests,
                 q_childAges = (case childAges guests of Some l \<Rightarrow> l | None \<Rightarrow> []),
                 q_arrivalDate = arrival,
                 q_departureDate = departure,
                 q_currencyCode = currency \<rparr>
      in case roomStaysGet up q of
           Inr result \<Rightarrow> Inr result
         | Inl e \<Rightarrow> roomStaysPost up q)"

text \<open>
  \<open>getRoomStaysWithDedup\<close>. A cache hit is returned as stored. A pending fetch under
  the same key is awaited and its room stays are filtered. Otherwise the method fetches,
  with the key registered as pending until the \<open>finally\<close> removes it; on success it
  filters the room stays and stores the filtered list.
\<close>

definition getRoomStaysWithDedup ::
  "Upstream \<Rightarrow> World \<Rightarrow> string \<Rightarrow> string \<Rightarrow> string \<Rightarrow> GuestCount \<Rightarrow> string
     \<Rightarrow> (error + TLRoomStay list) \<times> World" where
  "getRoomStaysWithDedup up w pid arrival departure guests currency =
     (let key = requestKey pid arrival departure guests currency;
          cacheKey = ''search:room-stays:'' @ key
      in case roomStaysStore w cacheKey of
           Some cachedv \<Rightarrow> (Inr cachedv, w)
         | None \<Rightarrow>
             (case inFlightRequests w key of
                Some outcome \<Rightarrow>
                  (case outcome of
                     Inl e \<Rightarrow> (Inl e, w)
                   | Inr result \<Rightarrow>
                       (Inr (filter (\<lambda>rs. propertyId rs = pid)
                               (case result of Some l \<Rightarrow> l | None \<Rightarrow> [])), w))
              | None \<Rightarrow>
                  (let w1 = w\<lparr> inFlightRequests := (inFlightRequests w)(key := None) \<rparr>
                   in case fetchRoomStays up pid arrival departure (sortedGuests guests) currency of
                        Inl e \<Rightarrow> (Inl e, w1)
                      | Inr result \<Rightarrow>
                          (let roomStays = filter (\<lambda>rs. propertyId rs = pid)
                                             (case result of Some l \<Rightarrow> l | None \<Rightarrow> [])
                           in (Inr roomStays,
                               w1\<lparr> roomStaysStore := (roomStaysStore w1)(cacheKey \<mapsto> roomStays) \<rparr>)))))"

record PropertyOffersResponse =
  property_id :: string
  property_name :: string
  resp_nights :: int
  resp_guests :: GuestCount
  resp_currency :: string
  resp_minPrice :: "jsnum option"
  resp_offers :: "RoomOffer list"

definition Math_min :: "jsnum list \<Rightarrow> jsnum" where
  \<comment> \<open>\<open>Math.min(...xs)\<close>\<close>
  "Math_min xs = foldr min xs PosInf"

definition offersResponse ::
  "TLPropertyContent \<Rightarrow> TLRoomStay list \<Rightarrow> int \<Rightarrow> GuestCount \<Rightarrow> string \<Rightarrow> PropertyOffersResponse" where
  \<comment> \<open>steps 3 to 5 of \<open>getPropertyOffers\<close>\<close>
  "offersResponse content roomStays nights guests currency =
     (let offers' = map (\<lambda>rs. mapRoomStayToOffer content rs nights) roomStays;
          minPerNight = (if offers' \<noteq> [] then Some (Math_min (map perNight offers')) else None)
      in \<lparr> property_id = content_id content,
           property_name = content_name content,
           resp_nights = nights,
           resp_guests = guests,
           resp_currency = currency,
           resp_minPrice = minPerNight,
           resp_offers = offers' \<rparr>)"

definition getPropertyOffers ::
  "Upstream \<Rightarrow> (string \<Rightarrow> int) \<Rightarrow> World \<Rightarrow> string \<Rightarrow> string \<Rightarrow> string \<Rightarrow> GuestCount \<Rightarrow> string option
     \<Rightarrow> (error + PropertyOffersResponse) \<times> World" where
  "getPropertyOffers up dateMs w pid arrival departure guests optCurrency =
     (let currency = (case optCurrency of Some c \<Rightarrow> c | None \<Rightarrow> ''RUB'')
      in case getPropertyContent up w pid False of
           (Inl e, w1) \<Rightarrow> (Inl e, w1)
         | (Inr cr, w1) \<Rightarrow>
             (case getRoomStaysWithDedup up w1 pid arrival departure guests currency of
                (Inl e, w2) \<Rightarrow> (Inl e, w2)
              | (Inr roomStays, w2) \<Rightarrow>
                  (Inr (offersResponse (data cr) roomStays (diffNights dateMs arrival departure)
                          (sortedGuests guests) currency), w2)))"

text \<open>
  \<open>offer.service.ts\<close> holds the same method without the cache and the pending map: it
  fetches and filters on every call.
\<close>

definition getPropertyOffersDirect ::
  "Upstream \<Rightarrow> (string \<Rightarrow> int) \<Rightarrow> World \<Rightarrow> string \<Rightarrow> string \<Rightarrow> string \<Rightarrow> GuestCount \<Rightarrow> string option
     \<Rightarrow> (error + PropertyOffersResponse) \<times> World" where
  "getPropertyOffersDirect up dateMs w pid arrival departure guests optCurrency =
     (let currency = (case optCurrency of Some c \<Rightarrow> c | None \<Rightarrow> ''RUB'')
      in case getPropertyContent up w pid False of
           (Inl e, w1) \<Rightarrow> (Inl e, w1)
         | (Inr cr, w1) \<Rightarrow>
             (case fetchRoomStays up pid arrival departure guests currency of
                Inl e \<Rightarrow> (Inl e, w1)
              | Inr rsResp \<Rightarrow>
                  (let roomStays = filter (\<lambda>rs. propertyId rs = pid)
                                     (case rsResp of Some l \<Rightarrow> l | None \<Rightarrow> [])
                   in (Inr (offersResponse (data cr) roomStays
                              (diffNights dateMs arrival departure) guests currency), w1))))"

section \<open>OAuthService: the access token and its two cache tiers\<close>

text \<open>
  The in-process tier is \<open>memoryToken\<close> with \<open>memoryTokenExpiresAt\<close> (epoch
  milliseconds, \<open>null\<close> when unknown); the shared tier is the store's entry under
  \<open>oauth:access_token\<close>, kept with the instant at which the store drops it (\<open>SETEX\<close>
  with a time to live in seconds). A call is made at the clock reading \<open>now\<close> and is
  sequential: \<open>refreshingPromise\<close> is \<open>null\<close> whenever a call starts. \<open>endpoint\<close> is
  what the token endpoint answers to a request made by this call, \<open>None\<close> when the
  request fails. An empty string is falsy, as in the source's truth tests.
\<close>

record TokenResponse =
  access_token :: string
  expires_in :: int

record OAuthState =
  memoryToken :: "string option"
  memoryTokenExpiresAt :: "int option"
  redisToken :: "(string \<times> int) option"

definition initialOAuth :: OAuthState where
  "initialOAuth = \<lparr> memoryToken = None, memoryTokenExpiresAt = None, redisToken = None \<rparr>"

definition redisGetToken :: "int \<Rightarrow> OAuthState \<Rightarrow> string option" where
  "redisGetToken now st =
     (case redisToken st of
        Some (v, expiresAt) \<Rightarrow> if now < expiresAt then Some v else None
      | None \<Rightarrow> None)"

definition tokenTtl :: "int \<Rightarrow> int" where
  \<comment> \<open>\<open>Math.max(expires_in - 120, 60)\<close>\<close>
  "tokenTtl e = max (e - 120) 60"

definition getAccessToken ::
  "TokenResponse option \<Rightarrow> int \<Rightarrow> OAuthState \<Rightarrow> (error + string) \<times> OAuthState" where
  "getAccessToken endpoint now st =
     (let cachedToken = redisGetToken now st
      in if cachedToken \<noteq> None \<and> cachedToken \<noteq> Some []
         then (Inr (the cachedToken),
               st\<lparr> memoryToken := cachedToken, memoryTokenExpiresAt := None \<rparr>)
         else
           (case endpoint of
              None \<Rightarrow> (Inl (OAuthError ''OAuth authentication failed''), st)
            | Some response \<Rightarrow>
                (let ttl = tokenTtl (expires_in response)
                 in (Inr (access_token response),
                     st\<lparr> redisToken := Some (access_token response, now + ttl * 1000),
                         memoryToken := Some (access_token response),
                         memoryTokenExpiresAt := Some (now + ttl * 1000) \<rparr>))))"

definition memoryValid :: "int \<Rightarrow> OAuthState \<Rightarrow> bool" where
  \<comment> \<open>the test that opens \<open>getValidAccessToken\<close>; \<open>!memoryTokenExpiresAt\<close> holds for
      \<open>null\<close> and for 0\<close>
  "memoryValid now st =
     (case memoryToken st of
        None \<Rightarrow> False
      | Some t \<Rightarrow>
          t \<noteq> [] \<and>
          (case memoryTokenExpiresAt st of None \<Rightarrow> True | Some x \<Rightarrow> x = 0 \<or> now < x))"

definition getValidAccessToken ::
  "TokenResponse option \<Rightarrow> int \<Rightarrow> OAuthState \<Rightarrow> (error + string) \<times> OAuthState" where
  "getValidAccessToken endpoint now st =
     (if memoryValid now st then (Inr (the (memoryToken st)), st)
      else
        (let cachedToken = redisGetToken now st
         in if cachedToken \<noteq> None \<and> cachedToken \<noteq> Some []
            then (Inr (the cachedToken),
                  st\<lparr> memoryToken := cachedToken, memoryTokenExpiresAt := None \<rparr>)
            else getAccessToken endpoint now st))"

definition refreshToken ::
  "TokenResponse option \<Rightarrow> int \<Rightarrow> OAuthState \<Rightarrow> (error + string) \<times> OAuthState" where
  "refreshToken endpoint now st =
     getValidAccessToken endpoint now
       (st\<lparr> redisToken := None, memoryToken := None, memoryTokenExpiresAt := None \<rparr>)"

section \<open>ImageProxyService\<close>

subsection \<open>Strings and buffers\<close>

text \<open>
  A JavaScript string is a sequence of UTF-16 code units, a buffer a sequence of bytes;
  both are lists of numbers here. \<open>wellFormed\<close> says that every element is a code unit
  and every surrogate is half of a pair.
\<close>

type_synonym jsstring = "nat list"

definition isHigh :: "nat \<Rightarrow> bool" where
  "isHigh u = (0xD800 \<le> u \<and> u \<le> 0xDBFF)"

definition isLow :: "nat \<Rightarrow> bool" where
  "isLow u = (0xDC00 \<le> u \<and> u \<le> 0xDFFF)"

fun wellFormed :: "jsstring \<Rightarrow> bool" where
  "wellFormed [] = True"
| "wellFormed [u] = (u < 0x10000 \<and> \<not> isHigh u \<and> \<not> isLow u)"
| "wellFormed (u # v # vs) =
     (if isHigh u then isLow v \<and> wellFormed vs
      else u < 0x10000 \<and> \<not> isLow u \<and> wellFormed (v # vs))"

text \<open>
  \<open>Buffer.from(url)\<close> writes the string as UTF-8: a surrogate pair is one code point
  of four bytes, and an unpaired surrogate is written as U+FFFD (\<open>EF BF BD\<close>).
\<close>

definition utf8Bytes :: "nat \<Rightarrow> nat list" where
  "utf8Bytes cp =
     (if cp < 0x80 then [cp]
      else if cp < 0x800 then [0xC0 + cp div 64, 0x80 + cp mod 64]
      else if cp < 0x10000 then [0xE0 + cp div 4096, 0x80 + cp div 64 mod 64, 0x80 + cp mod 64]
      else [0xF0 + cp div 262144, 0x80 + cp div 4096 mod 64, 0x80 + cp div 64 mod 64,
            0x80 + cp mod 64])"

definition unitBytes :: "nat \<Rightarrow> nat list" where
  \<comment> \<open>a code unit that is not the first half of a pair\<close>
  "unitBytes u = (if isHigh u \<or> isLow u then [0xEF, 0xBF, 0xBD] else utf8Bytes u)"

fun utf8Write :: "jsstring \<Rightarrow> nat list" where
  "utf8Write [] = []"
| "utf8Write [u] = unitBytes u"
| "utf8Write (u # v # vs) =
     (if isHigh u \<and> isLow v
      then utf8Bytes (0x10000 + (u - 0xD800) * 1024 + (v - 0xDC00)) @ utf8Write vs
      else unitBytes u @ utf8Write (v # vs))"

text \<open>
  \<open>toString('base64url')\<close>: three bytes give four characters of the URL-safe alphabet,
  a rest of one or two bytes gives two or three, and no padding is written.
\<close>

definition b64char :: "nat \<Rightarrow> nat" where
  "b64char i =
     (if i < 26 then 65 + i
      else if i < 52 then 71 + i
      else if i < 62 then i - 4
      else if i = 62 then 45
      else 95)"

fun sextetsOf :: "nat list \<Rightarrow> nat list" where
  "sextetsOf (a # b # c # rest) =
     [a div 4, a mod 4 * 16 + b div 16, b mod 16 * 4 + c div 64, c mod 64] @ sextetsOf rest"
| "sextetsOf [a, b] = [a div 4, a mod 4 * 16 + b div 16, b mod 16 * 4]"
| "sextetsOf [a] = [a div 4, a mod 4 * 16]"
| "sextetsOf [] = []"

definition base64urlEncode :: "nat list \<Rightarrow> jsstring" where
  "base64urlEncode bytes = map b64char (sextetsOf bytes)"

text \<open>
  \<open>Buffer.from(encoded, 'base64url')\<close> does not reject anything: it skips every
  character outside the two base64 alphabets, stops at the first \<open>=\<close>, and turns the
  characters it kept into bytes, four at a time; a rest of two or three characters gives
  one or two bytes, a rest of one gives none.
\<close>

definition unbase64 :: "nat \<Rightarrow> nat option" where
  "unbase64 u =
     (if 65 \<le> u \<and> u \<le> 90 then Some (u - 65)
      else if 97 \<le> u \<and> u \<le> 122 then Some (u - 71)
      else if 48 \<le> u \<and> u \<le> 57 then Some (u + 4)
      else if u = 43 \<or> u = 45 then Some 62
      else if u = 47 \<or> u = 95 then Some 63
      else None)"

fun bytesOf :: "nat list \<Rightarrow> nat list" where
  "bytesOf (a # b # c # d # rest) =
     [a * 4 + b div 16, b mod 16 * 16 + c div 4, c mod 4 * 64 + d] @ bytesOf rest"
| "bytesOf [a, b, c] = [a * 4 + b div 16, b mod 16 * 16 + c div 4]"
| "bytesOf [a, b] = [a * 4 + b div 16]"
| "bytesOf [a] = []"
| "bytesOf [] = []"

definition base64Decode :: "jsstring \<Rightarrow> nat list" where
  "base64Decode encoded =
     bytesOf (List.map_filter unbase64 (takeWhile (\<lambda>u. u \<noteq> 61) encoded))"

text \<open>
  \<open>toString('utf-8')\<close> reads UTF-8 and never fails: a well-formed sequence gives its
  code point (two code units above U+FFFF), and every maximal ill-formed part gives
  U+FFFD.
\<close>

definition cont :: "nat \<Rightarrow> bool" where
  "cont c = (0x80 \<le> c \<and> c \<le> 0xBF)"

definition unitsOf :: "nat \<Rightarrow> nat list" where
  "unitsOf cp =
     (if cp < 0x10000 then [cp]
      else [0xD800 + (cp - 0x10000) div 1024, 0xDC00 + (cp - 0x10000) mod 1024])"

fun utf8Slice :: "nat list \<Rightarrow> jsstring" where
  "utf8Slice [] = []"
| "utf8Slice (b # bs) =
     (if b < 0x80 then b # utf8Slice bs
      else if 0xC2 \<le> b \<and> b \<le> 0xDF then
        (case bs of
           c # rest \<Rightarrow>
             if cont c then ((b - 0xC0) * 64 + (c - 0x80)) # utf8Slice rest
             else 0xFFFD # utf8Slice bs
         | [] \<Rightarrow> [0xFFFD])
      else if 0xE0 \<le> b \<and> b \<le> 0xEF then
        (case bs of
           c # rest \<Rightarrow>
             if (if b = 0xE0 then 0xA0 else 0x80) \<le> c \<and> c \<le> (if b = 0xED then 0x9F else 0xBF)
             then
               (case rest of
                  d # rest' \<Rightarrow>
                    if cont d
                    then ((b - 0xE0) * 4096 + (c - 0x80) * 64 + (d - 0x80)) # utf8Slice rest'
                    else 0xFFFD # utf8Slice rest
                | [] \<Rightarrow> [0xFFFD])
             else 0xFFFD # utf8Slice bs
         | [] \<Rightarrow> [0xFFFD])
      else if 0xF0 \<le> b \<and> b \<le> 0xF4 then
        (case bs of
           c # rest \<Rightarrow>
             if (if b = 0xF0 then 0x90 else 0x80) \<le> c \<and> c \<le> (if b = 0xF4 then 0x8F else 0xBF)
             then
               (case rest of
                  d # rest' \<Rightarrow>
                    if cont d then
                      (case rest' of
                         e # rest'' \<Rightarrow>
                           if cont e
                           then unitsOf ((b - 0xF0) * 262144 + (c - 0x80) * 4096
                                          + (d - 0x80) * 64 + (e - 0x80)) @ utf8Slice rest''
                           else 0xFFFD # utf8Slice rest'
                       | [] \<Rightarrow> [0xFFFD])
                    else 0xFFFD # utf8Slice rest
                | [] \<Rightarrow> [0xFFFD])
             else 0xFFFD # utf8Slice bs
         | [] \<Rightarrow> [0xFFFD])
      else 0xFFFD # utf8Slice bs)"

subsection \<open>The proxy token\<close>

definition encodeUrl :: "jsstring \<Rightarrow> jsstring" where
  "encodeUrl url = base64urlEncode (utf8Write url)"

definition decodeUrl :: "jsstring \<Rightarrow> jsstring" where
  "decodeUrl encoded = utf8Slice (base64Decode encoded)"

subsection \<open>Serving an image\<close>

text \<open>
  The cache directory is a map from file names to contents. \<open>urlToHash\<close> (MD5 in hex)
  and the download (\<open>axios.get\<close>: the body and the \<open>content-type\<close> header, or a
  rejection) are parameters. The file system is taken to be available.
\<close>

record ImageEnv =
  urlToHash :: "jsstring \<Rightarrow> string"
  download :: "jsstring \<Rightarrow> error + nat list \<times> string option"

record ImageResult =
  buffer :: "nat list"
  contentType :: string

definition extToContentType :: "string \<Rightarrow> string" where
  "extToContentType ext =
     (if ext = ''jpg'' then ''image/jpeg''
      else if ext = ''jpeg'' then ''image/jpeg''
      else if ext = ''png'' then ''image/png''
      else if ext = ''webp'' then ''image/webp''
      else if ext = ''gif'' then ''image/gif''
      else ''image/jpeg'')"

definition contentTypeToExt :: "string \<Rightarrow> string" where
  \<comment> \<open>\<open>map[contentType.split(';')[0]] || 'jpg'\<close>\<close>
  "contentTypeToExt ct =
     (let t = takeWhile (\<lambda>ch. ch \<noteq> CHR '';'') ct
      in if t = ''image/jpeg'' then ''jpg''
         else if t = ''image/jpg'' then ''jpg''
         else if t = ''image/png'' then ''png''
         else if t = ''image/webp'' then ''webp''
         else if t = ''image/gif'' then ''gif''
         else ''jpg'')"

definition findCachedFile :: "(string \<rightharpoonup> nat list) \<Rightarrow> string \<Rightarrow> (string \<times> string) option" where
  "findCachedFile files hash =
     (case find (\<lambda>ext. files (hash @ ''.'' @ ext) \<noteq> None)
             [''jpg'', ''jpeg'', ''png'', ''webp'', ''gif''] of
        Some ext \<Rightarrow> Some (hash @ ''.'' @ ext, extToContentType ext)
      | None \<Rightarrow> None)"

definition downloadAndCache ::
  "ImageEnv \<Rightarrow> (string \<rightharpoonup> nat list) \<Rightarrow> string \<Rightarrow> jsstring
     \<Rightarrow> (error + ImageResult) \<times> (string \<rightharpoonup> nat list)" where
  "downloadAndCache env files hash url =
     (case download env url of
        Inl e \<Rightarrow> (Inl (NotFoundException ''Failed to fetch image''), files)
      | Inr (bytes, header) \<Rightarrow>
          (let ct = (case header of
                       Some h \<Rightarrow> if h \<noteq> [] then h else ''image/jpeg''
                     | None \<Rightarrow> ''image/jpeg'');
               ext = contentTypeToExt ct
           in (Inr \<lparr> buffer = bytes, contentType = ct \<rparr>,
               files(hash @ ''.'' @ ext \<mapsto> bytes))))"

text \<open>
  \<open>getImageByEncodedUrl\<close> decodes inside a \<open>try\<close> whose \<open>catch\<close> throws
  \<open>NotFoundException('Invalid image URL')\<close>. \<open>decodeUrlTry\<close> is that \<open>try\<close>: the two
  buffer calls of \<open>decodeUrl\<close> return for every string, so it has no failing case.
\<close>

definition decodeUrlTry :: "jsstring \<Rightarrow> unit + jsstring" where
  "decodeUrlTry encodedUrl = Inr (decodeUrl encodedUrl)"

definition getImageByEncodedUrl ::
  "ImageEnv \<Rightarrow> (string \<rightharpoonup> nat list) \<Rightarrow> jsstring
     \<Rightarrow> (error + ImageResult) \<times> (string \<rightharpoonup> nat list)" where
  "getImageByEncodedUrl env files encodedUrl =
     (case decodeUrlTry encodedUrl of
        Inl e \<Rightarrow> (Inl (NotFoundException ''Invalid image URL''), files)
      | Inr originalUrl \<Rightarrow>
          (let hash = urlToHash env originalUrl
           in case findCachedFile files hash of
                Some (path, ct) \<Rightarrow>
                  (Inr \<lparr> buffer = the (files path), contentType = ct \<rparr>, files)
              | None \<Rightarrow> downloadAndCache env files hash originalUrl))"

section \<open>Notions the statements use\<close>

text \<open>
  The successive slices \<open>ids.slice(i, i + CHUNK)\<close> the loop sends, and the room stays it
  meets in encounter order (a chunk without \<open>roomStays\<close> contributes none).
\<close>

function batchesFrom :: "nat \<Rightarrow> string list \<Rightarrow> string list list" where
  "batchesFrom i ids =
     (if i < length ids then take CHUNK (drop i ids) # batchesFrom (i + CHUNK) ids else [])"
  by pat_completeness auto
termination
  by (relation "measure (\<lambda>(i, ids). length ids - i)") (auto simp: CHUNK_def)

declare batchesFrom.simps [simp del]

definition roomStaysOf :: "error + TLRoomStay list option \<Rightarrow> TLRoomStay list" where
  "roomStaysOf r = (case r of Inr (Some l) \<Rightarrow> l | _ \<Rightarrow> [])"

definition encountered ::
  "search_post \<Rightarrow> string list \<Rightarrow> string \<Rightarrow> string \<Rightarrow> GuestCount \<Rightarrow> string \<Rightarrow> TLRoomStay list" where
  "encountered post ids arrival departure guests currency =
     concat (map (\<lambda>batch. roomStaysOf (post (searchBody batch arrival departure guests currency)))
                 (batchesFrom 0 ids))"

text \<open>
  The specification's price rule and selection, written from its words and not from the
  code: the total price of an offer is its pre-tax total when it has one, otherwise its
  post-tax total when it has one, otherwise infinite; \<open>firstCheapest p offers\<close> is the
  first offer of property \<open>p\<close> in the list whose total price is minimal among the offers
  of \<open>p\<close>.
\<close>

definition totalPrice :: "TLRoomStay \<Rightarrow> jsnum" where
  "totalPrice offer =
     (if priceBeforeTax offer \<noteq> None then Num (the (priceBeforeTax offer))
      else if priceAfterTax offer \<noteq> None then Num (the (priceAfterTax offer))
      else PosInf)"

definition firstCheapest :: "string \<Rightarrow> TLRoomStay list \<Rightarrow> TLRoomStay option" where
  "firstCheapest p offers =
     find (\<lambda>rs. propertyId rs = p \<and>
                (\<forall>r \<in> set offers. propertyId r = p \<longrightarrow> totalPrice rs \<le> totalPrice r)) offers"

text \<open>
  What the listing is compared with, again from the specification's words. The
  requested properties are the property ids the geo endpoint lists for the city, from
  the offset on and at most \<open>limit\<close> of them when a limit is given. A property has
  content when the content cache holds an entry under its key \<open>hotel:<id>\<close>, or else
  when the content endpoint returns its content. Its priced offer is the first cheapest
  one among the room stays the pricing endpoint returns for the requested properties.
\<close>

definition requestedIds :: "Upstream \<Rightarrow> string \<Rightarrow> ListOpts \<Rightarrow> string list" where
  "requestedIds up cityId opts =
     (let listed = (case geoGet up cityId of Inr (Some ids) \<Rightarrow> ids | _ \<Rightarrow> []);
          fromOffset = drop (case opt_offset opts of Some n \<Rightarrow> n | None \<Rightarrow> 0) listed
      in case opt_limit opts of
           Some n \<Rightarrow> if n = 0 then fromOffset else take n fromOffset
         | None \<Rightarrow> fromOffset)"

definition listCurrency :: "ListOpts \<Rightarrow> string" where
  "listCurrency opts = (case opt_currency opts of Some c \<Rightarrow> c | None \<Rightarrow> ''RUB'')"

definition contentFor :: "Upstream \<Rightarrow> World \<Rightarrow> string \<Rightarrow> TLPropertyContent option" where
  "contentFor up w pid =
     (case contentStore w (''hotel:'' @ pid) of
        Some c \<Rightarrow> Some c
      | None \<Rightarrow> (case contentGet up pid of Inr c \<Rightarrow> Some c | Inl e \<Rightarrow> None))"

definition pricedOffers ::
  "Upstream \<Rightarrow> string \<Rightarrow> string \<Rightarrow> string \<Rightarrow> GuestCount \<Rightarrow> ListOpts \<Rightarrow> TLRoomStay list" where
  "pricedOffers up cityId arrival departure guests opts =
     encountered (searchPost up) (requestedIds up cityId opts) arrival departure guests
       (listCurrency opts)"

definition hasCard ::
  "Upstream \<Rightarrow> World \<Rightarrow> string \<Rightarrow> string \<Rightarrow> string \<Rightarrow> GuestCount \<Rightarrow> ListOpts \<Rightarrow> string \<Rightarrow> bool" where
  "hasCard up w cityId arrival departure guests opts pid =
     (contentFor up w pid \<noteq> None
      \<and> firstCheapest pid (pricedOffers up cityId arrival departure guests opts) \<noteq> None)"

definition cardOf ::
  "Upstream \<Rightarrow> World \<Rightarrow> string \<Rightarrow> string \<Rightarrow> string \<Rightarrow> GuestCount \<Rightarrow> ListOpts \<Rightarrow> int \<Rightarrow> string
     \<Rightarrow> HotelCard" where
  "cardOf up w cityId arrival departure guests opts nights pid =
     buildCard (the (contentFor up w pid))
       (the (firstCheapest pid (pricedOffers up cityId arrival departure guests opts)))
       nights guests"

text \<open>
  The calendar, for the calendar-day difference of two dates: the Gregorian leap years,
  the lengths of the months and of the years, and the number of days from the first of
  January of the year 0 up to and including a date. A calendar date is a date that
  exists, with a year of four digits. \<open>calendarDays a b\<close> is the number of days from
  \<open>a\<close> to \<open>b\<close>, negative when \<open>b\<close> is the earlier one; \<open>localMidnight\<close> is the
  midnight that begins a date, in milliseconds of local time from the midnight that
  begins 1 January 1970.
\<close>

definition leapYear :: "nat \<Rightarrow> bool" where
  "leapYear y = (4 dvd y \<and> (\<not> 100 dvd y \<or> 400 dvd y))"

definition daysInYear :: "nat \<Rightarrow> nat" where
  "daysInYear y = (if leapYear y then 366 else 365)"

definition daysInMonth :: "nat \<Rightarrow> nat \<Rightarrow> nat" where
  "daysInMonth y m =
     (if m = 2 then (if leapYear y then 29 else 28)
      else if m \<in> {4, 6, 9, 11} then 30 else 31)"

definition calendarDate :: "nat \<times> nat \<times> nat \<Rightarrow> bool" where
  "calendarDate date =
     (case date of (y, m, d) \<Rightarrow>
        1000 \<le> y \<and> y \<le> 9999 \<and> 1 \<le> m \<and> m \<le> 12 \<and> 1 \<le> d \<and> d \<le> daysInMonth y m)"

fun daysBeforeYear :: "nat \<Rightarrow> nat" where
  "daysBeforeYear 0 = 0"
| "daysBeforeYear (Suc y) = daysBeforeYear y + daysInYear y"

definition daysBeforeMonth :: "nat \<Rightarrow> nat \<Rightarrow> nat" where
  "daysBeforeMonth y m = sum_list (map (daysInMonth y) [1..<m])"

definition dayNumber :: "nat \<times> nat \<times> nat \<Rightarrow> nat" where
  "dayNumber date = (case date of (y, m, d) \<Rightarrow> daysBeforeYear y + daysBeforeMonth y m + d)"

definition calendarDays :: "nat \<times> nat \<times> nat \<Rightarrow> nat \<times> nat \<times> nat \<Rightarrow> int" where
  "calendarDays a b = int (dayNumber b) - int (dayNumber a)"

definition localMidnight :: "nat \<times> nat \<times> nat \<Rightarrow> int" where
  "localMidnight date = calendarDays (1970, 1, 1) date * 86400000"

section \<open>Concrete inputs\<close>

definition stay :: "string \<Rightarrow> real option \<Rightarrow> real option \<Rightarrow> string \<Rightarrow> TLRoomStay" where
  "stay p before after tag =
     \<lparr> propertyId = p, priceBeforeTax = before, priceAfterTax = after, currencyCode = None,
       availability = None, checksum = Some tag, ratePlanId = None \<rparr>"

definition guests2 :: GuestCount where
  "guests2 = \<lparr> adultCount = 2, childAges = None \<rparr>"

definition post3 :: search_post where
  "post3 body = Inr (Some [stay ''A'' (Some 100) (Some 50) ''first'',
                           stay ''A'' None (Some 90) ''second'',
                           stay ''A'' (Some 90) (Some 95) ''third'',
                           stay ''B'' None None ''unpriced''])"

definition ids201 :: "string list" where
  "ids201 = replicate 200 ''a'' @ [''b'']"

definition postFail :: search_post where
  "postFail body =
     (if ''b'' \<in> set (propertyIds body) then Inl (UpstreamError ''timeout'')
      else Inr (Some [stay ''a'' (Some 100) None ''only'']))"

definition contentOf :: "string \<Rightarrow> string \<Rightarrow> TLPropertyContent" where
  "contentOf pid name =
     \<lparr> content_id = pid, content_name = name, content_currency = None, content_stars = Some 4 \<rparr>"

definition emptyWorld :: World where
  "emptyWorld = \<lparr> contentStore = Map.empty, roomStaysStore = Map.empty,
                  inFlightRequests = Map.empty, contentFetches = [] \<rparr>"

definition upDown :: Upstream where
  "upDown = \<lparr> contentGet = (\<lambda>pid. Inl (UpstreamError ''503'')),
              geoGet = (\<lambda>city. Inl (UpstreamError ''503'')),
              searchPost = (\<lambda>body. Inl (UpstreamError ''503'')),
              roomStaysGet = (\<lambda>q. Inl (UpstreamError ''503'')),
              roomStaysPost = (\<lambda>q. Inl (UpstreamError ''503'')) \<rparr>"

definition cachedWorld :: World where
  "cachedWorld = emptyWorld\<lparr> contentStore := [''hotel:P1'' \<mapsto> contentOf ''P1'' ''Old name''] \<rparr>"

definition upFresh :: Upstream where
  "upFresh = upDown\<lparr> contentGet := (\<lambda>pid. Inr (contentOf pid ''New name'')) \<rparr>"

definition utc :: "int \<Rightarrow> int" where
  \<comment> \<open>a process in UTC\<close>
  "utc t = 0"


definition upListing :: Upstream where
  "upListing = upDown\<lparr>
     geoGet := (\<lambda>city. Inr (Some [''P1'', ''P2'', ''P3'', ''P4'', ''P5''])),
     contentGet := (\<lambda>pid. if pid = ''P4'' then Inl (UpstreamError ''404'')
                           else Inr (contentOf pid ''Hotel'')),
     searchPost := (\<lambda>body. Inr (Some (filter (\<lambda>rs. propertyId rs \<in> set (propertyIds body))
                      [stay ''P1'' (Some 10000) None ''x'', stay ''P2'' None (Some 8000) ''y'',
                       stay ''P4'' (Some 6000) None ''z'', stay ''P5'' (Some 2000) None ''v'']))) \<rparr>"

definition listingWorld :: World where
  "listingWorld = emptyWorld\<lparr> contentStore := [''hotel:P1'' \<mapsto> contentOf ''P1'' ''Cached name''] \<rparr>"

definition opts4 :: ListOpts where
  "opts4 = \<lparr> opt_currency = Some ''RUB'', opt_limit = Some 4, opt_offset = None \<rparr>"

definition cardP1 :: HotelCard where
  "cardP1 = \<lparr> card_id = ''P1'', card_name = ''Cached name'', card_stars = Some 4,
               price_value = Num 5000, price_currency = ''RUB'' \<rparr>"

definition cardP2 :: HotelCard where
  "cardP2 = \<lparr> card_id = ''P2'', card_name = ''Hotel'', card_stars = Some 4,
               price_value = Num 4000, price_currency = ''RUB'' \<rparr>"

definition issued :: "string \<Rightarrow> int \<Rightarrow> TokenResponse" where
  "issued tok e = \<lparr> access_token = tok, expires_in = e \<rparr>"

definition guests2c :: GuestCount where
  \<comment> \<open>two adults, as the controller builds the guests: \<open>childAges\<close> is an empty array\<close>
  "guests2c = \<lparr> adultCount = 2, childAges = Some [] \<rparr>"

definition upOffers :: Upstream where
  "upOffers = upDown\<lparr>
     contentGet := (\<lambda>pid. Inr (contentOf pid ''Hotel'')),
     roomStaysGet := (\<lambda>q. Inr (Some [stay (q_propertyId q) (Some 4000) None ''a'',
                                        stay ''other'' (Some 5000) None ''x'',
                                        stay (q_propertyId q) (Some 6000) None ''b''])) \<rparr>"

definition weirdCurrency :: string where
  "weirdCurrency = ''RUB:2025-09-26:2025-09-28:2::RUB''"

definition weirdId :: string where
  "weirdId = ''h:2025-09-26:2025-09-28:2::RUB''"

definition worldAfterFirst :: World where
  "worldAfterFirst =
     snd (getPropertyOffers upOffers (dateMsIn utc) emptyWorld ''h'' ''2025-09-26'' ''2025-09-28''
            guests2c (Some weirdCurrency))"

section \<open>Facts about JavaScript numbers\<close>

lemma jsnum_less_simps [simp]:
  "Num x < Num y \<longleftrightarrow> x < y"
  "Num x < PosInf"
  "\<not> PosInf < b"
  by (auto simp: less_jsnum_def split: jsnum.splits)

lemma jsnum_le_simps [simp]:
  "Num x \<le> Num y \<longleftrightarrow> x \<le> y"
  "a \<le> PosInf"
  "PosInf \<le> b \<longleftrightarrow> b = PosInf"
  by (auto simp: less_eq_jsnum_def split: jsnum.splits)

section \<open>The search aggregator\<close>

subsection \<open>Selecting the cheapest room stay\<close>

text \<open>\<open>rsTotal\<close> computes the specification's total price.\<close>

lemma rsTotal_totalPrice: "rsTotal rs = totalPrice rs"
  by (simp add: rsTotal_def totalPrice_def split: option.splits)

lemma firstCheapest_rsTotal:
  "firstCheapest p offers =
     find (\<lambda>rs. propertyId rs = p \<and>
                (\<forall>r \<in> set offers. propertyId r = p \<longrightarrow> rsTotal rs \<le> rsTotal r)) offers"
  by (simp add: firstCheapest_def rsTotal_totalPrice)

lemma ex_cheapest:
  assumes "x \<in> set xs" "propertyId x = p"
  shows "\<exists>m \<in> set xs. propertyId m = p \<and> (\<forall>r \<in> set xs. propertyId r = p \<longrightarrow> rsTotal m \<le> rsTotal r)"
  using assms
proof (induction xs arbitrary: x)
  case Nil
  then show ?case by simp
next
  case (Cons y ys)
  show ?case
  proof (cases "\<exists>z \<in> set ys. propertyId z = p")
    case True
    then obtain m where m: "m \<in> set ys" "propertyId m = p"
      "\<forall>r \<in> set ys. propertyId r = p \<longrightarrow> rsTotal m \<le> rsTotal r"
      using Cons.IH by blast
    show ?thesis
    proof (cases "propertyId y = p \<and> rsTotal y < rsTotal m")
      case True
      with m show ?thesis
        by (intro bexI[of _ y]) (auto intro: order_trans less_imp_le)
    next
      case False
      with m show ?thesis
        by (intro bexI[of _ m]) (auto simp: not_less)
    qed
  next
    case False
    with Cons.prems show ?thesis
      by (intro bexI[of _ x]) auto
  qed
qed

lemma firstCheapest_None_iff:
  "firstCheapest p xs = None \<longleftrightarrow> (\<forall>r \<in> set xs. propertyId r \<noteq> p)"
  using ex_cheapest [of _ xs p]
  unfolding firstCheapest_rsTotal find_None_iff by blast

lemma find_append:
  "find P (xs @ ys) = (case find P xs of None \<Rightarrow> find P ys | Some v \<Rightarrow> Some v)"
  by (induction xs) auto

lemma firstCheapest_SomeD:
  "firstCheapest p xs = Some c \<Longrightarrow>
     c \<in> set xs \<and> propertyId c = p \<and> (\<forall>r \<in> set xs. propertyId r = p \<longrightarrow> rsTotal c \<le> rsTotal r)"
  unfolding firstCheapest_rsTotal
  by (auto simp: find_Some_iff)

lemma firstCheapest_snoc_other:
  "propertyId x \<noteq> p \<Longrightarrow> firstCheapest p (xs @ [x]) = firstCheapest p xs"
  unfolding firstCheapest_rsTotal
  by (auto simp: find_append split: option.splits intro!: find_cong)

lemma firstCheapest_snoc_same:
  "firstCheapest (propertyId x) (xs @ [x]) =
     (case firstCheapest (propertyId x) xs of
        None \<Rightarrow> Some x
      | Some c \<Rightarrow> if rsTotal x < rsTotal c then Some x else Some c)"
proof -
  let ?p = "propertyId x"
  let ?Q = "\<lambda>rs. propertyId rs = ?p \<and>
             (\<forall>r \<in> set (xs @ [x]). propertyId r = ?p \<longrightarrow> rsTotal rs \<le> rsTotal r)"
  let ?P = "\<lambda>rs. propertyId rs = ?p \<and>
             (\<forall>r \<in> set xs. propertyId r = ?p \<longrightarrow> rsTotal rs \<le> rsTotal r)"
  have app: "firstCheapest ?p (xs @ [x]) = (case find ?Q xs of None \<Rightarrow> find ?Q [x] | Some v \<Rightarrow> Some v)"
    unfolding firstCheapest_rsTotal by (rule find_append)
  show ?thesis
  proof (cases "firstCheapest ?p xs")
    case None
    then have no: "\<forall>r \<in> set xs. propertyId r \<noteq> ?p"
      by (simp add: firstCheapest_None_iff)
    then have "find ?Q xs = None"
      unfolding find_None_iff by blast
    moreover have "find ?Q [x] = Some x"
      using no by auto
    ultimately show ?thesis using None app by simp
  next
    case (Some c)
    note c = firstCheapest_SomeD [OF Some]
    show ?thesis
    proof (cases "rsTotal x < rsTotal c")
      case True
      have "\<And>r. r \<in> set xs \<Longrightarrow> propertyId r = ?p \<Longrightarrow> rsTotal x < rsTotal r"
        using c True by (blast intro: less_le_trans)
      then have lt: "\<forall>r \<in> set xs. propertyId r = ?p \<longrightarrow> rsTotal x < rsTotal r"
        by blast
      then have "find ?Q xs = None"
        unfolding find_None_iff by (auto simp: not_le)
      moreover have "find ?Q [x] = Some x"
        using lt by (auto intro: less_imp_le)
      ultimately show ?thesis using Some True app by simp
    next
      case False
      then have le: "rsTotal c \<le> rsTotal x" by (simp add: not_less)
      have "find ?Q xs = find ?P xs"
      proof (rule find_cong [OF refl])
        fix r assume r: "r \<in> set xs"
        show "?Q r = ?P r"
        proof (cases "?P r")
          case True
          then have "rsTotal r \<le> rsTotal c" using c by blast
          then have "rsTotal r \<le> rsTotal x" using le by (rule order_trans)
          with True show ?thesis by auto
        next
          case False
          then show ?thesis by auto
        qed
      qed
      also have "\<dots> = Some c"
        using Some unfolding firstCheapest_rsTotal .
      finally show ?thesis using Some False app by simp
    qed
  qed
qed

lemma groupCheapest_snoc: "groupCheapest out (xs @ [x]) = cheaper (groupCheapest out xs) x"
  by (induction xs arbitrary: out) simp_all

lemma groupCheapest_firstCheapest:
  "groupCheapest Map.empty offers p = firstCheapest p offers"
proof (induction offers arbitrary: p rule: rev_induct)
  case Nil
  then show ?case by (simp add: firstCheapest_def)
next
  case (snoc x xs)
  show ?case
  proof (cases "propertyId x = p")
    case True
    then show ?thesis
      using snoc.IH [of p] firstCheapest_snoc_same [of x xs]
      by (auto simp: groupCheapest_snoc cheaper_def Let_def split: option.splits)
  next
    case False
    then show ?thesis
      using snoc.IH [of p]
      by (simp add: groupCheapest_snoc cheaper_def Let_def firstCheapest_snoc_other)
  qed
qed

subsection \<open>The chunk loop\<close>

lemma groupCheapest_append:
  "groupCheapest out (xs @ ys) = groupCheapest (groupCheapest out xs) ys"
  by (induction xs arbitrary: out) simp_all

lemma chunkLoop_batches:
  "chunkLoop post ids a d g c i out =
     (case find (\<lambda>batch. isl (post (searchBody batch a d g c))) (batchesFrom i ids) of
        Some b \<Rightarrow> Inl (projl (post (searchBody b a d g c)))
      | None \<Rightarrow> Inr (groupCheapest out
          (concat (map (\<lambda>batch. roomStaysOf (post (searchBody batch a d g c))) (batchesFrom i ids)))))"
proof (induction post ids a d g c i out rule: chunkLoop.induct)
  case (1 post ids a d g c i out)
  show ?case
  proof (cases "i < length ids")
    case False
    then show ?thesis
      by (simp add: chunkLoop.simps batchesFrom.simps)
  next
    case True
    let ?b = "take CHUNK (drop i ids)"
    have bs: "batchesFrom i ids = ?b # batchesFrom (i + CHUNK) ids"
      using True by (subst batchesFrom.simps) simp
    show ?thesis
    proof (cases "post (searchBody ?b a d g c)")
      case (Inl e)
      then show ?thesis
        using True by (subst chunkLoop.simps) (simp add: bs)
    next
      case (Inr resp)
      have "chunkLoop post ids a d g c i out =
              chunkLoop post ids a d g c (i + CHUNK)
                (groupCheapest out (case resp of Some l \<Rightarrow> l | None \<Rightarrow> []))"
        using True Inr by (subst chunkLoop.simps) simp
      also have "\<dots> = (case find (\<lambda>batch. isl (post (searchBody batch a d g c))) (batchesFrom (i + CHUNK) ids) of
        Some b \<Rightarrow> Inl (projl (post (searchBody b a d g c)))
      | None \<Rightarrow> Inr (groupCheapest (groupCheapest out (case resp of Some l \<Rightarrow> l | None \<Rightarrow> []))
          (concat (map (\<lambda>batch. roomStaysOf (post (searchBody batch a d g c))) (batchesFrom (i + CHUNK) ids)))))"
        using "1.IH" [OF True refl refl Inr refl] .
      finally show ?thesis
        using Inr by (simp add: bs roomStaysOf_def groupCheapest_append split: option.splits)
    qed
  qed
qed

lemma concat_batchesFrom: "concat (batchesFrom i ids) = drop i ids"
proof (induction i ids rule: batchesFrom.induct)
  case (1 i ids)
  show ?case
  proof (cases "i < length ids")
    case True
    then show ?thesis
      using 1 by (subst batchesFrom.simps) (simp add: add.commute [of i] flip: drop_drop)
  next
    case False
    then show ?thesis by (subst batchesFrom.simps) simp
  qed
qed

lemma batchesFrom_sizes:
  "list_all (\<lambda>b. b \<noteq> [] \<and> length b \<le> CHUNK) (batchesFrom i ids)"
proof (induction i ids rule: batchesFrom.induct)
  case (1 i ids)
  show ?case
  proof (cases "i < length ids")
    case True
    then show ?thesis
      using 1 by (subst batchesFrom.simps) (simp add: CHUNK_def)
  next
    case False
    then show ?thesis by (subst batchesFrom.simps) simp
  qed
qed

lemma getCheapestByPropertyIds_Inr:
  assumes "getCheapestByPropertyIds post ids a d g c = Inr out"
  shows "out = (\<lambda>p. firstCheapest p (encountered post ids a d g c))"
proof -
  have "find (\<lambda>batch. isl (post (searchBody batch a d g c))) (batchesFrom 0 ids) = None"
    using assms unfolding getCheapestByPropertyIds_def chunkLoop_batches
    by (simp split: option.splits)
  then have "out = groupCheapest Map.empty (encountered post ids a d g c)"
    using assms unfolding getCheapestByPropertyIds_def chunkLoop_batches encountered_def
    by simp
  then show ?thesis
    by (simp add: groupCheapest_firstCheapest fun_eq_iff)
qed

text \<open>
  Claim C1. When every pricing call succeeds, \<open>getCheapestByPropertyIds\<close> maps each
  property id to the first room stay, in encounter order over all chunks, that attains
  the minimal total price of that property, the total price being the specification's
  \<open>totalPrice\<close>: \<open>priceBeforeTax\<close> when present, else \<open>priceAfterTax\<close> when present, else
  infinity. A property without room stays has no entry. A later room stay replaces the
  held one only when strictly cheaper, so among equal prices the first one stays.
\<close>

theorem getCheapestByPropertyIds_first_minimal:
  assumes "getCheapestByPropertyIds post ids a d g c = Inr out"
  shows "out p = firstCheapest p (encountered post ids a d g c)"
  using getCheapestByPropertyIds_Inr [OF assms] by simp

text \<open>
  The spec's example, with the price rule at work. Property A has three offers: the first
  with pre-tax total 100 and post-tax total 50 (its total price is 100, the pre-tax one),
  the second with post-tax total 90 only, the third with pre-tax total 90; property B has
  one offer without any total (infinite). The second offer of A is selected: it is
  cheaper than the first, and the third only equals it. B's only offer is selected.
\<close>

theorem getCheapestByPropertyIds_first_minimal_witness:
  "\<exists>out. getCheapestByPropertyIds post3 [''A'', ''B''] ''2025-09-26'' ''2025-09-28'' guests2 ''RUB''
         = Inr out
       \<and> out ''A'' = Some (stay ''A'' None (Some 90) ''second'')
       \<and> out ''B'' = Some (stay ''B'' None None ''unpriced'')
       \<and> out ''C'' = None
       \<and> firstCheapest ''A'' (encountered post3 [''A'', ''B''] ''2025-09-26'' ''2025-09-28'' guests2 ''RUB'')
           = Some (stay ''A'' None (Some 90) ''second'')
       \<and> map totalPrice (encountered post3 [''A'', ''B''] ''2025-09-26'' ''2025-09-28'' guests2 ''RUB'')
           = [Num 100, Num 90, Num 90, PosInf]"
proof -
  let ?l = "[stay ''A'' (Some 100) (Some 50) ''first'', stay ''A'' None (Some 90) ''second'',
             stay ''A'' (Some 90) (Some 95) ''third'', stay ''B'' None None ''unpriced'']"
  have run: "getCheapestByPropertyIds post3 [''A'', ''B''] ''2025-09-26'' ''2025-09-28'' guests2 ''RUB''
      = Inr (groupCheapest Map.empty ?l)"
    by (simp add: getCheapestByPropertyIds_def chunkLoop.simps CHUNK_def post3_def)
  have sel: "groupCheapest Map.empty ?l ''A'' = Some (stay ''A'' None (Some 90) ''second'')"
    "groupCheapest Map.empty ?l ''B'' = Some (stay ''B'' None None ''unpriced'')"
    "groupCheapest Map.empty ?l ''C'' = None"
    by (simp_all add: cheaper_def rsTotal_def stay_def)
  have enc: "encountered post3 [''A'', ''B''] ''2025-09-26'' ''2025-09-28'' guests2 ''RUB'' = ?l"
    unfolding encountered_def
    by (simp add: batchesFrom.simps CHUNK_def post3_def roomStaysOf_def)
  have tot: "map totalPrice ?l = [Num 100, Num 90, Num 90, PosInf]"
    by (simp add: totalPrice_def stay_def)
  from getCheapestByPropertyIds_first_minimal [OF run, of "''A''"] sel run enc tot
  show ?thesis by simp
qed

subsection \<open>Chunks and upstream failures\<close>

lemma ids201_batches: "batchesFrom 0 ids201 = [replicate 200 ''a'', [''b'']]"
  by (simp add: batchesFrom.simps ids201_def CHUNK_def)

text \<open>
  Claim C3 says that a failing chunk does not drop the results of the other chunks. With
  201 ids the loop makes two calls; here the first succeeds with an offer and the second
  rejects: the method rejects, and the offer of the first chunk is not returned.
\<close>

theorem getCheapestByPropertyIds_chunk_failure_counterexample:
  "postFail (searchBody (take CHUNK ids201) ''2025-09-26'' ''2025-09-28'' guests2 ''RUB'')
     = Inr (Some [stay ''a'' (Some 100) None ''only''])
   \<and> getCheapestByPropertyIds postFail ids201 ''2025-09-26'' ''2025-09-28'' guests2 ''RUB''
     = Inl (UpstreamError ''timeout'')"
proof
  show "postFail (searchBody (take CHUNK ids201) ''2025-09-26'' ''2025-09-28'' guests2 ''RUB'')
     = Inr (Some [stay ''a'' (Some 100) None ''only''])"
    by (simp add: postFail_def searchBody_def ids201_def CHUNK_def)
  show "getCheapestByPropertyIds postFail ids201 ''2025-09-26'' ''2025-09-28'' guests2 ''RUB''
     = Inl (UpstreamError ''timeout'')"
    by (simp add: getCheapestByPropertyIds_def chunkLoop_batches ids201_batches
          postFail_def searchBody_def)
qed

text \<open>
  Claim C3, amended. The ids are cut into consecutive, non-empty chunks of at most 200
  ids that together are the input, one pricing call per chunk in order. The calls are
  not isolated: the first chunk whose call rejects makes the whole method reject with
  that error; only when every call succeeds does the method return the map of cheapest
  offers over all chunks.
\<close>

theorem getCheapestByPropertyIds_chunks:
  "concat (batchesFrom 0 ids) = ids
   \<and> list_all (\<lambda>b. b \<noteq> [] \<and> length b \<le> 200) (batchesFrom 0 ids)
   \<and> getCheapestByPropertyIds post ids a d g c =
       (case find (\<lambda>batch. isl (post (searchBody batch a d g c))) (batchesFrom 0 ids) of
          Some b \<Rightarrow> Inl (projl (post (searchBody b a d g c)))
        | None \<Rightarrow> Inr (groupCheapest Map.empty (encountered post ids a d g c)))"
  using batchesFrom_sizes [of 0 ids]
  unfolding encountered_def
  by (simp add: concat_batchesFrom getCheapestByPropertyIds_def chunkLoop_batches CHUNK_def)

theorem getCheapestByPropertyIds_chunks_witness:
  "batchesFrom 0 ids201 = [replicate 200 ''a'', [''b'']]
   \<and> getCheapestByPropertyIds postFail ids201 ''2025-09-26'' ''2025-09-28'' guests2 ''RUB''
       = Inl (UpstreamError ''timeout'')"
  using getCheapestByPropertyIds_chunks [of ids201 postFail "''2025-09-26''" "''2025-09-28''" guests2 "''RUB''"]
  by (simp add: ids201_batches postFail_def searchBody_def)

section \<open>The content cache\<close>

lemma fetchAndCacheContent_log:
  "contentFetches (snd (fetchAndCacheContent up w pid)) = contentFetches w @ [pid]"
  by (simp add: fetchAndCacheContent_def Let_def split: sum.splits)

text \<open>
  Claim C4. With a cached entry and no forced refresh, \<open>getPropertyContent\<close> returns the
  entry with \<open>cached = true\<close> and leaves the world as it was (no fetch). Otherwise it
  fetches once: fresh data come back with \<open>cached = false\<close> and are stored; when the
  fetch fails and an entry was cached, that entry comes back with \<open>stale = true\<close>; when
  the fetch fails and nothing was cached, the call fails with the \<open>NotFoundException\<close>
  (the spec's \<open>ContentUnavailable\<close>). It fails in no other case.
\<close>

theorem getPropertyContent_outcomes:
  "(contentStore w (contentCacheKey pid) = Some c \<and> \<not> refresh \<longrightarrow>
      getPropertyContent up w pid refresh = (Inr \<lparr> cached = True, data = c, stale = None \<rparr>, w))
   \<and> (contentStore w (contentCacheKey pid) = None \<or> refresh \<longrightarrow>
        contentFetches (snd (getPropertyContent up w pid refresh)) = contentFetches w @ [pid]
        \<and> (\<forall>fresh. contentGet up pid = Inr fresh \<longrightarrow>
              fst (getPropertyContent up w pid refresh)
                = Inr \<lparr> cached = False, data = fresh, stale = None \<rparr>
              \<and> contentStore (snd (getPropertyContent up w pid refresh)) (contentCacheKey pid)
                = Some fresh)
        \<and> (\<forall>e c. contentGet up pid = Inl e \<and> contentStore w (contentCacheKey pid) = Some c \<longrightarrow>
              fst (getPropertyContent up w pid refresh)
                = Inr \<lparr> cached = True, data = c, stale = Some True \<rparr>)
        \<and> (\<forall>e. contentGet up pid = Inl e \<and> contentStore w (contentCacheKey pid) = None \<longrightarrow>
              fst (getPropertyContent up w pid refresh)
                = Inl (NotFoundException (''Property '' @ pid @ '' content not available''))))
   \<and> (isl (fst (getPropertyContent up w pid refresh)) \<longleftrightarrow>
        contentStore w (contentCacheKey pid) = None \<and> isl (contentGet up pid))"
proof (intro conjI impI allI)
  assume "contentStore w (contentCacheKey pid) = Some c \<and> \<not> refresh"
  then show "getPropertyContent up w pid refresh = (Inr \<lparr> cached = True, data = c, stale = None \<rparr>, w)"
    by (simp add: getPropertyContent_def)
next
  assume "contentStore w (contentCacheKey pid) = None \<or> refresh"
  then show "contentFetches (snd (getPropertyContent up w pid refresh)) = contentFetches w @ [pid]"
    using fetchAndCacheContent_log [of up w pid]
    by (auto simp: getPropertyContent_def Let_def split: prod.splits option.splits)
next
  fix fresh
  assume "contentStore w (contentCacheKey pid) = None \<or> refresh" "contentGet up pid = Inr fresh"
  then show "fst (getPropertyContent up w pid refresh) = Inr \<lparr> cached = False, data = fresh, stale = None \<rparr>"
    by (auto simp: getPropertyContent_def fetchAndCacheContent_def Let_def)
next
  fix fresh
  assume "contentStore w (contentCacheKey pid) = None \<or> refresh" "contentGet up pid = Inr fresh"
  then show "contentStore (snd (getPropertyContent up w pid refresh)) (contentCacheKey pid) = Some fresh"
    by (auto simp: getPropertyContent_def fetchAndCacheContent_def Let_def)
next
  fix e c
  assume "contentStore w (contentCacheKey pid) = None \<or> refresh"
    "contentGet up pid = Inl e \<and> contentStore w (contentCacheKey pid) = Some c"
  then show "fst (getPropertyContent up w pid refresh) = Inr \<lparr> cached = True, data = c, stale = Some True \<rparr>"
    by (auto simp: getPropertyContent_def fetchAndCacheContent_def Let_def)
next
  fix e
  assume "contentStore w (contentCacheKey pid) = None \<or> refresh"
    "contentGet up pid = Inl e \<and> contentStore w (contentCacheKey pid) = None"
  then show "fst (getPropertyContent up w pid refresh)
      = Inl (NotFoundException (''Property '' @ pid @ '' content not available''))"
    by (auto simp: getPropertyContent_def fetchAndCacheContent_def Let_def)
next
  show "isl (fst (getPropertyContent up w pid refresh)) \<longleftrightarrow>
        contentStore w (contentCacheKey pid) = None \<and> isl (contentGet up pid)"
    by (auto simp: getPropertyContent_def fetchAndCacheContent_def Let_def
          split: option.splits sum.splits)
qed

theorem getPropertyContent_outcomes_witness:
  "getPropertyContent upFresh cachedWorld ''P1'' False
     = (Inr \<lparr> cached = True, data = contentOf ''P1'' ''Old name'', stale = None \<rparr>, cachedWorld)
   \<and> fst (getPropertyContent upFresh cachedWorld ''P1'' True)
     = Inr \<lparr> cached = False, data = contentOf ''P1'' ''New name'', stale = None \<rparr>
   \<and> contentFetches (snd (getPropertyContent upFresh cachedWorld ''P1'' True)) = [''P1'']
   \<and> fst (getPropertyContent upDown cachedWorld ''P1'' True)
     = Inr \<lparr> cached = True, data = contentOf ''P1'' ''Old name'', stale = Some True \<rparr>
   \<and> fst (getPropertyContent upDown emptyWorld ''P1'' False)
     = Inl (NotFoundException ''Property P1 content not available'')"
  using getPropertyContent_outcomes [of cachedWorld "''P1''" "contentOf ''P1'' ''Old name''" False upFresh]
    getPropertyContent_outcomes [of cachedWorld "''P1''" "contentOf ''P1'' ''Old name''" True upFresh]
    getPropertyContent_outcomes [of cachedWorld "''P1''" "contentOf ''P1'' ''Old name''" True upDown]
    getPropertyContent_outcomes [of emptyWorld "''P1''" "contentOf ''P1'' ''Old name''" False upDown]
  by (simp add: cachedWorld_def emptyWorld_def upFresh_def upDown_def contentCacheKey_def)

section \<open>Nights and per-night prices\<close>

subsection \<open>The calendar of the \<open>Date\<close> constructor\<close>

text \<open>
  The closed formula \<open>DayFromYear\<close> and the month table of ECMAScript count the days of
  the calendar: from one year to the next \<open>DayFromYear\<close> grows by the length of the
  year, so \<open>MakeDay\<close> is the day number of the date, up to the day number of the epoch.
\<close>

lemma InLeapYear_leapYear: "InLeapYear (int y) = leapYear y"
proof -
  have "\<And>k::nat. (int y mod int k = 0) = (k dvd y)"
    by (metis dvd_eq_mod_eq_0 int_dvd_int_iff of_nat_mod of_nat_0_eq_iff of_nat_0)
  from this [of 4] this [of 100] this [of 400] show ?thesis
    unfolding InLeapYear_def leapYear_def by simp
qed

lemma div_step:
  fixes x k :: int
  assumes "0 < k"
  shows "(x + 1) div k - x div k = (if k dvd (x + 1) then 1 else 0)"
proof (cases "x mod k + 1 = k")
  case True
  have x: "x + 1 = k * (x div k + 1) + 0"
    using True by (simp add: algebra_simps) (metis add.commute div_mult_mod_eq add.assoc mult.commute)
  have "(x + 1) div k = x div k + 1"
    by (rule int_div_pos_eq [OF x]) (use assms in simp_all)
  moreover have "k dvd (x + 1)"
    using x by (metis add.right_neutral dvd_triv_left)
  ultimately show ?thesis by simp
next
  case False
  have r: "0 \<le> x mod k" "x mod k < k"
    using assms by simp_all
  have x: "x + 1 = k * (x div k) + (x mod k + 1)"
    by (simp add: algebra_simps)
  have d: "(x + 1) div k = x div k"
    by (rule int_div_pos_eq [OF x]) (use r False in simp_all)
  have m: "(x + 1) mod k = x mod k + 1"
    by (rule int_mod_pos_eq [OF x]) (use r False in simp_all)
  have "\<not> k dvd (x + 1)"
    using m r by (simp add: dvd_eq_mod_eq_0)
  with d show ?thesis by simp
qed

lemma year_step:
  fixes y k c :: int
  assumes "0 < k" "k dvd (c - 1)"
  shows "(y + 1 - c) div k - (y - c) div k = (if k dvd y then 1 else 0)"
proof -
  have e: "y + 1 - c = y - c + 1"
    by simp
  have f: "y - c + 1 = y - (c - 1)"
    by simp
  have g: "(k dvd (y - c + 1)) = (k dvd y)"
    unfolding f by (rule dvd_diff_left_iff [OF assms(2)])
  show ?thesis
    unfolding e using div_step [OF assms(1), of "y - c"] unfolding g .
qed

lemma DayFromYear_Suc: "DayFromYear (int (Suc y)) = DayFromYear (int y) + int (daysInYear y)"
proof -
  define a1 a0 b1 b0 c1 c0 where
    "a1 = (int y + 1 - 1969) div 4" and "a0 = (int y - 1969) div 4" and
    "b1 = (int y + 1 - 1901) div 100" and "b0 = (int y - 1901) div 100" and
    "c1 = (int y + 1 - 1601) div 400" and "c0 = (int y - 1601) div 400"
  have n: "(4 dvd int y) = (4 dvd y)" "(100 dvd int y) = (100 dvd y)" "(400 dvd int y) = (400 dvd y)"
    using int_dvd_int_iff [of 4 y] int_dvd_int_iff [of 100 y] int_dvd_int_iff [of 400 y] by simp_all
  have a: "a1 - a0 = (if 4 dvd y then 1 else 0)"
    unfolding a1_def a0_def n(1) [symmetric] by (rule year_step) simp_all
  have b: "b1 - b0 = (if 100 dvd y then 1 else 0)"
    unfolding b1_def b0_def n(2) [symmetric] by (rule year_step) simp_all
  have c: "c1 - c0 = (if 400 dvd y then 1 else 0)"
    unfolding c1_def c0_def n(3) [symmetric] by (rule year_step) simp_all
  have e: "400 dvd y \<Longrightarrow> 100 dvd y" "100 dvd y \<Longrightarrow> 4 dvd y"
    by (auto elim: dvd_trans [rotated])
  have s: "int (Suc y) = int y + 1"
    by simp
  have d1: "DayFromYear (int (Suc y)) = 365 * (int y - 1970) + 365 + a1 - b1 + c1"
    unfolding DayFromYear_def s a1_def b1_def c1_def by (simp only: algebra_simps)
  have d0: "DayFromYear (int y) = 365 * (int y - 1970) + a0 - b0 + c0"
    unfolding DayFromYear_def a0_def b0_def c0_def ..
  show ?thesis
    unfolding d1 d0 daysInYear_def leapYear_def
    using a b c e by (auto split: if_splits)
qed

lemma daysBeforeYear_closed: "int (daysBeforeYear y) = DayFromYear (int y) - DayFromYear 0"
proof (induction y)
  case 0
  then show ?case by simp
next
  case (Suc y)
  then show ?case by (simp add: DayFromYear_Suc del: of_nat_Suc)
qed

lemma upt_12_cases: "1 \<le> m \<Longrightarrow> m \<le> 12 \<Longrightarrow>
   m = 1 \<or> m = 2 \<or> m = 3 \<or> m = 4 \<or> m = 5 \<or> m = 6 \<or> m = 7 \<or> m = 8 \<or> m = 9 \<or> m = 10 \<or> m = 11 \<or> m = (12::nat)"
  by arith

lemma daysBeforeMonth_monthStart:
  assumes "1 \<le> m" "m \<le> 12"
  shows "int (daysBeforeMonth y m) = monthStart (leapYear y) (m - 1)"
  using upt_12_cases [OF assms]
  by (elim disjE) (simp_all add: daysBeforeMonth_def monthStart_def daysInMonth_def upt_rec numeral_eq_Suc)

lemma MakeDay_dayNumber:
  assumes "1 \<le> m" "m \<le> 12"
  shows "MakeDay (int y) (m - 1) (int d) * 86400000 = localMidnight (y, m, d)"
proof -
  have z: "DayFromYear 1970 = 0"
    by (simp add: DayFromYear_def)
  have o: "int (dayNumber (1970, 1, 1)) = 1 - DayFromYear 0"
    using daysBeforeYear_closed [of 1970]
    by (simp add: dayNumber_def daysBeforeMonth_def z)
  have "MakeDay (int y) (m - 1) (int d) = int (dayNumber (y, m, d)) - int (dayNumber (1970, 1, 1))"
    unfolding o MakeDay_def InLeapYear_leapYear
    by (simp add: dayNumber_def daysBeforeYear_closed daysBeforeMonth_monthStart [OF assms])
  then show ?thesis
    by (simp add: localMidnight_def calendarDays_def)
qed

subsection \<open>Reading a written date\<close>

text \<open>
  The date-time string of a calendar date, as \<open>parseDatesRange\<close> writes the date and
  \<open>diffNights\<close> completes it, is read back as that date, and its time value is the local
  midnight of the date moved by the zone offset at that midnight.
\<close>

lemma digit_cases: "k < 10 \<Longrightarrow>
   k = 0 \<or> k = 1 \<or> k = 2 \<or> k = 3 \<or> k = 4 \<or> k = 5 \<or> k = 6 \<or> k = 7 \<or> k = 8 \<or> k = (9::nat)"
  by arith

lemma digitVal_digit: "k < 10 \<Longrightarrow> digitVal (digitChar k) = Some k"
  by (drule digit_cases) (auto simp: digitVal_def digitChar_def)

lemma digit_not_dash: "k < 10 \<Longrightarrow> digitChar k \<noteq> CHR ''-''"
  by (drule digit_cases) (auto simp: digitChar_def)

lemma showNat_1: "n < 10 \<Longrightarrow> showNat n = [digitChar n]"
  by (subst showNat.simps) simp

lemma showNat_2:
  assumes "10 \<le> n" "n < 100"
  shows "showNat n = [digitChar (n div 10), digitChar (n mod 10)]"
proof -
  have "n div 10 < 10" using assms by simp
  then show ?thesis
    using assms by (subst showNat.simps) (simp add: showNat_1)
qed

lemma showNat_4:
  assumes "1000 \<le> n" "n < 10000"
  shows "showNat n = [digitChar (n div 10 div 10 div 10),
                      digitChar (n div 10 div 10 mod 10),
                      digitChar (n div 10 mod 10), digitChar (n mod 10)]"
proof -
  have a: "10 \<le> n div 10 div 10" "n div 10 div 10 < 100"
    using assms by (simp_all add: div_mult2_eq [symmetric] less_mult_imp_div_less)
  have b: "\<not> n div 10 < 10" "\<not> n < 10"
    using assms by (simp_all add: div_mult2_eq [symmetric] less_mult_imp_div_less)
  have "showNat n = showNat (n div 10) @ [digitChar (n mod 10)]"
    using b by (subst showNat.simps) simp
  also have "showNat (n div 10) = showNat (n div 10 div 10) @ [digitChar (n div 10 mod 10)]"
    using b by (subst showNat.simps) simp
  finally show ?thesis
    by (simp add: showNat_2 [OF a])
qed

lemma readDigits_2:
  assumes "a < 10" "b < 10"
  shows "readDigits 0 [digitChar a, digitChar b] = Some (a * 10 + b)"
  using assms by (simp add: digitVal_digit)

lemma pad_2:
  assumes "n < 100"
  shows "\<exists>a b. a < 10 \<and> b < 10 \<and> pad n = [digitChar a, digitChar b] \<and> a * 10 + b = n"
proof (cases "n < 10")
  case True
  have z: "CHR ''0'' = digitChar 0"
    by (simp add: digitChar_def)
  from True have "pad n = [digitChar 0, digitChar n]"
    by (simp add: pad_def showNat_1 z)
  with True show ?thesis
    by (intro exI [of _ 0] exI [of _ n]) simp
next
  case False
  then have "pad n = [digitChar (n div 10), digitChar (n mod 10)]"
    using assms by (simp add: pad_def showNat_2)
  moreover have "n div 10 < 10" using assms by simp
  ultimately show ?thesis
    by (intro exI [of _ "n div 10"] exI [of _ "n mod 10"]) simp
qed

lemma parseDateTime_formatDate:
  assumes "1000 \<le> y" "y < 10000" "1 \<le> m" "m \<le> 12" "1 \<le> d" "d \<le> 31"
  shows "parseDateTime (formatDate (y, m, d) @ ''T00:00:00'') = Some (y, m, d)"
proof -
  obtain m1 m2 where m: "m1 < 10" "m2 < 10" "pad m = [digitChar m1, digitChar m2]"
    "m1 * 10 + m2 = m"
    using pad_2 [of m] assms by auto
  obtain d1 d2 where d: "d1 < 10" "d2 < 10" "pad d = [digitChar d1, digitChar d2]"
    "d1 * 10 + d2 = d"
    using pad_2 [of d] assms by auto
  have y: "y div 10 div 10 div 10 < 10"
    using assms by (simp add: div_mult2_eq [symmetric] less_mult_imp_div_less)
  have yy: "((y div 10 div 10 div 10 * 10 + y div 10 div 10 mod 10) * 10 + y div 10 mod 10) * 10
              + y mod 10 = y"
    by simp
  have ry: "readDigits 0 [digitChar (y div 10 div 10 div 10), digitChar (y div 10 div 10 mod 10),
                          digitChar (y div 10 mod 10), digitChar (y mod 10)] = Some y"
    using y by (simp add: digitVal_digit yy)
  have rm: "readDigits 0 [digitChar m1, digitChar m2] = Some m"
    using m by (simp add: digitVal_digit)
  have rd: "readDigits 0 [digitChar d1, digitChar d2] = Some d"
    using d by (simp add: digitVal_digit)
  have s: "formatDate (y, m, d) @ ''T00:00:00''
      = [digitChar (y div 10 div 10 div 10), digitChar (y div 10 div 10 mod 10),
         digitChar (y div 10 mod 10), digitChar (y mod 10), CHR ''-'',
         digitChar m1, digitChar m2, CHR ''-'', digitChar d1, digitChar d2] @ ''T00:00:00''"
    by (simp add: formatDate_def showNat_4 [OF assms(1,2)] m(3) d(3))
  show ?thesis
    unfolding parseDateTime_def s
    using assms(3-6) by (simp add: ry rm rd del: readDigits.simps)
qed

lemma Date_local_formatDate:
  assumes "1000 \<le> y" "y < 10000" "1 \<le> m" "m \<le> 12" "1 \<le> d" "d \<le> 31"
  shows "Date_local tza (formatDate (y, m, d) @ ''T00:00:00'')
           = Some (localMidnight (y, m, d) - tza (localMidnight (y, m, d)))"
  unfolding Date_local_def parseDateTime_formatDate [OF assms] Let_def
  by (simp only: option.case prod.case MakeDay_dayNumber [OF assms(3,4)])

lemma daysInMonth_le: "daysInMonth y m \<le> 31"
  by (simp add: daysInMonth_def)

lemma Date_local_calendarDate:
  assumes "calendarDate a"
  shows "Date_local tza (formatDate a @ ''T00:00:00'')
           = Some (localMidnight a - tza (localMidnight a))"
proof -
  obtain y m d where a: "a = (y, m, d)"
    by (cases a)
  have "d \<le> 31"
    using assms daysInMonth_le [of y m] by (simp add: a calendarDate_def)
  then show ?thesis
    using assms unfolding a calendarDate_def
    by (intro Date_local_formatDate) simp_all
qed

lemma localMidnight_diff: "localMidnight b - localMidnight a = 86400000 * calendarDays a b"
  by (simp add: localMidnight_def calendarDays_def algebra_simps)

subsection \<open>Nights\<close>

lemma round_days:
  fixes k r :: int
  assumes "- 43200000 \<le> r" "r < 43200000"
  shows "round (real_of_int (86400000 * k + r) / 86400000) = k"
proof -
  have lo: "- 43200000 \<le> real_of_int r" and hi: "real_of_int r < 43200000"
    using assms by linarith+
  have x: "real_of_int (86400000 * k + r) / 86400000 = of_int k + real_of_int r / 86400000"
    by (simp add: add_divide_distrib)
  have "of_int k \<le> of_int k + real_of_int r / 86400000 + 1 / 2"
    using lo by simp
  moreover have "of_int k + real_of_int r / 86400000 + 1 / 2 < of_int k + 1"
    using hi by simp
  ultimately have "\<lfloor>of_int k + real_of_int r / 86400000 + 1 / 2\<rfloor> = k"
    by (intro floor_unique) simp_all
  then show ?thesis
    unfolding round_def x .
qed

lemma diffNights_calendarDays:
  assumes "calendarDate a" "calendarDate b"
    and "\<bar>tza (localMidnight a) - tza (localMidnight b)\<bar> < 43200000"
  shows "diffNights (dateMsIn tza) (formatDate a) (formatDate b) = max 1 (calendarDays a b)"
proof -
  define r where "r = tza (localMidnight a) - tza (localMidnight b)"
  have r: "- 43200000 \<le> r" "r < 43200000"
    using assms(3) unfolding r_def by linarith+
  have "dateMsIn tza (formatDate b @ ''T00:00:00'') - dateMsIn tza (formatDate a @ ''T00:00:00'')
      = (localMidnight b - localMidnight a) + r"
    unfolding dateMsIn_def Date_local_calendarDate [OF assms(1)] Date_local_calendarDate [OF assms(2)]
      r_def by simp
  also have "\<dots> = 86400000 * calendarDays a b + r"
    unfolding localMidnight_diff ..
  finally have "diffNights (dateMsIn tza) (formatDate a) (formatDate b)
      = max 1 (round (real_of_int (86400000 * calendarDays a b + r) / 86400000))"
    unfolding diffNights_def Let_def by simp
  then show ?thesis
    unfolding round_days [OF r] .
qed

subsection \<open>Per-night prices\<close>






subsection \<open>Some dates and prices\<close>

lemma dayNumber_closed:
  assumes "1 \<le> m" "m \<le> 12"
  shows "int (dayNumber (y, m, d))
           = DayFromYear (int y) - DayFromYear 0 + monthStart (leapYear y) (m - 1) + int d"
  by (simp add: dayNumber_def daysBeforeYear_closed daysBeforeMonth_monthStart [OF assms])







section \<open>The listing\<close>

lemma joinCards_filter:
  "joinCards contentById cheapestById nights guests sliced =
     map (\<lambda>pid. buildCard (the (contentById pid)) (the (cheapestById pid)) nights guests)
       (filter (\<lambda>pid. contentById pid \<noteq> None \<and> cheapestById pid \<noteq> None) sliced)"
  unfolding joinCards_def
  by (induction sliced) (auto simp: List.map_filter_simps split: option.splits)

lemma getCheapest_Nil: "getCheapestByPropertyIds post [] a d g c = Inr Map.empty"
  by (simp add: getCheapestByPropertyIds_def chunkLoop.simps)

text \<open>The page \<open>ids.slice(start, end)\<close> is the list of requested properties.\<close>

lemma slice_requestedIds:
  assumes "geoGet up cityId = Inr resp"
  shows "slice (case opt_offset opts of Some n \<Rightarrow> n | None \<Rightarrow> 0)
           (case opt_limit opts of
              Some n \<Rightarrow> if n \<noteq> 0 then (case opt_offset opts of Some n \<Rightarrow> n | None \<Rightarrow> 0) + n
                        else length (case resp of Some l \<Rightarrow> l | None \<Rightarrow> [])
            | None \<Rightarrow> length (case resp of Some l \<Rightarrow> l | None \<Rightarrow> []))
           (case resp of Some l \<Rightarrow> l | None \<Rightarrow> [])
         = requestedIds up cityId opts"
  using assms
  by (simp add: slice_def requestedIds_def Let_def split: option.splits)

text \<open>
  \<open>getContentForIds\<close> holds, for each id it was given, the content of that property: the
  cached entry, or else what the content endpoint returned.
\<close>

lemma fetchMisses_result:
  "fst (fetchMisses up (result, w) misses) =
     (\<lambda>p. if p \<in> set misses
          then (case contentGet up p of Inr c \<Rightarrow> Some c | Inl e \<Rightarrow> result p)
          else result p)"
proof (induction misses arbitrary: result w)
  case Nil
  then show ?case by simp
next
  case (Cons pid rest)
  show ?case
  proof (cases "contentGet up pid")
    case (Inl e)
    then show ?thesis
      using Cons.IH by (auto simp: fetchAndCacheContent_def Let_def fun_eq_iff)
  next
    case (Inr c)
    then show ?thesis
      using Cons.IH by (auto simp: fetchAndCacheContent_def Let_def fun_eq_iff split: sum.splits)
  qed
qed

lemma getContentForIds_contentFor:
  "fst (getContentForIds up w ids) = (\<lambda>p. if p \<in> set ids then contentFor up w p else None)"
  unfolding getContentForIds_def Let_def fetchMisses_result
  by (auto simp: contentFor_def contentCacheKey_def fun_eq_iff split: option.splits sum.splits)

lemma joinCards_cards:
  assumes "getCheapestByPropertyIds (searchPost up) (requestedIds up cityId opts) a d guests
             (listCurrency opts) = Inr cheapestById"
  shows "joinCards (fst (getContentForIds up w (requestedIds up cityId opts))) cheapestById
           nights guests (requestedIds up cityId opts)
         = map (cardOf up w cityId a d guests opts nights)
             (filter (hasCard up w cityId a d guests opts) (requestedIds up cityId opts))"
proof -
  have c: "cheapestById = (\<lambda>p. firstCheapest p (pricedOffers up cityId a d guests opts))"
    unfolding pricedOffers_def by (rule getCheapestByPropertyIds_Inr [OF assms])
  have f: "filter (\<lambda>pid. (if pid \<in> set (requestedIds up cityId opts) then contentFor up w pid else None) \<noteq> None
                        \<and> cheapestById pid \<noteq> None) (requestedIds up cityId opts)
         = filter (hasCard up w cityId a d guests opts) (requestedIds up cityId opts)"
    by (rule filter_cong) (simp_all add: hasCard_def c)
  show ?thesis
    unfolding joinCards_filter getContentForIds_contentFor f
    by (rule map_cong) (simp_all add: cardOf_def c)
qed

text \<open>
  The listing succeeds exactly when the geo call and every pricing call of the requested
  properties succeed, and it is then the stable sort, by the per-night price, of the
  cards of the requested properties that have one.
\<close>

lemma getHotelsList_Inr:
  assumes "fst (getHotelsList up dateMs w cityId a d guests opts) = Inr cards"
  shows "\<exists>resp cheapestById.
      geoGet up cityId = Inr resp
    \<and> getCheapestByPropertyIds (searchPost up) (requestedIds up cityId opts) a d guests
        (listCurrency opts) = Inr cheapestById"
proof (cases "geoGet up cityId")
  case (Inl e)
  with assms show ?thesis by (simp add: getHotelsList_def)
next
  case (Inr resp)
  show ?thesis
  proof (cases "(case resp of Some l \<Rightarrow> l | None \<Rightarrow> []) = []")
    case True
    then have "requestedIds up cityId opts = []"
      using Inr by (auto simp: requestedIds_def Let_def split: option.splits)
    then show ?thesis
      using Inr by (simp add: getCheapest_Nil)
  next
    case False
    show ?thesis
      using assms Inr False
      unfolding getHotelsList_def Let_def
      by (simp add: slice_requestedIds [OF Inr] listCurrency_def split: prod.splits sum.splits)
  qed
qed

lemma getHotelsList_run:
  assumes "geoGet up cityId = Inr resp"
    and "getCheapestByPropertyIds (searchPost up) (requestedIds up cityId opts) a d guests
          (listCurrency opts) = Inr cheapestById"
  shows "fst (getHotelsList up dateMs w cityId a d guests opts)
         = Inr (sort_key price_value
                  (map (cardOf up w cityId a d guests opts (diffNights dateMs a d))
                     (filter (hasCard up w cityId a d guests opts) (requestedIds up cityId opts))))"
proof (cases "(case resp of Some l \<Rightarrow> l | None \<Rightarrow> []) = []")
  case True
  then have "requestedIds up cityId opts = []"
    using assms(1) by (auto simp: requestedIds_def Let_def split: option.splits)
  then show ?thesis
    using assms(1) True by (simp add: getHotelsList_def Let_def)
next
  case False
  obtain m w' where g: "getContentForIds up w (requestedIds up cityId opts) = (m, w')"
    by (cases "getContentForIds up w (requestedIds up cityId opts)")
  then have m: "m = fst (getContentForIds up w (requestedIds up cityId opts))"
    by simp
  have j: "joinCards m cheapestById (diffNights dateMs a d) guests (requestedIds up cityId opts)
         = map (cardOf up w cityId a d guests opts (diffNights dateMs a d))
             (filter (hasCard up w cityId a d guests opts) (requestedIds up cityId opts))"
    unfolding m by (rule joinCards_cards [OF assms(2)])
  have c: "getCheapestByPropertyIds (searchPost up) (requestedIds up cityId opts) a d guests
          (case opt_currency opts of Some c \<Rightarrow> c | None \<Rightarrow> ''RUB'') = Inr cheapestById"
    using assms(2) by (simp add: listCurrency_def)
  show ?thesis
    using assms(1) False
    unfolding getHotelsList_def Let_def
    by (simp add: slice_requestedIds [OF assms(1)] g c j sortCards_def)
qed

text \<open>
  Claim C5. When \<open>getHotelsList\<close> returns cards, they are exactly the cards built, one
  each, for the requested properties that have both content and a priced offer (an id
  missing either gives none), in ascending order of the per-night price. The requested
  properties, having content and the priced offer are the notions \<open>requestedIds\<close>,
  \<open>contentFor\<close> and \<open>firstCheapest\<close> of the specification; \<open>hasCard\<close> joins the two
  conditions and \<open>cardOf\<close> builds the card from that content and that offer.
\<close>

theorem getHotelsList_cards:
  assumes "fst (getHotelsList up dateMs w cityId a d guests opts) = Inr cards"
  shows "mset cards =
           mset (map (cardOf up w cityId a d guests opts (diffNights dateMs a d))
                   (filter (hasCard up w cityId a d guests opts) (requestedIds up cityId opts)))
    \<and> length cards =
        length (filter (hasCard up w cityId a d guests opts) (requestedIds up cityId opts))
    \<and> sorted (map price_value cards)"
proof -
  from getHotelsList_Inr [OF assms] obtain resp cheapestById where
    g: "geoGet up cityId = Inr resp"
    and c: "getCheapestByPropertyIds (searchPost up) (requestedIds up cityId opts) a d guests
        (listCurrency opts) = Inr cheapestById"
    by blast
  from getHotelsList_run [OF g c, of dateMs w] assms
  have "cards = sort_key price_value
                  (map (cardOf up w cityId a d guests opts (diffNights dateMs a d))
                     (filter (hasCard up w cityId a d guests opts) (requestedIds up cityId opts)))"
    by simp
  then show ?thesis
    by simp
qed

subsection \<open>A city of five properties\<close>

lemma listing_requested: "requestedIds upListing ''city'' opts4 = [''P1'', ''P2'', ''P3'', ''P4'']"
  by (simp add: requestedIds_def upListing_def upDown_def opts4_def)

lemma listing_offers:
  "pricedOffers upListing ''city'' ''2025-09-26'' ''2025-09-28'' guests2 opts4
     = [stay ''P1'' (Some 10000) None ''x'', stay ''P2'' None (Some 8000) ''y'',
        stay ''P4'' (Some 6000) None ''z'']"
  unfolding pricedOffers_def listing_requested encountered_def
  by (simp add: batchesFrom.simps CHUNK_def upListing_def upDown_def searchBody_def
        roomStaysOf_def stay_def)

lemma listing_cheapest:
  "getCheapestByPropertyIds (searchPost upListing) [''P1'', ''P2'', ''P3'', ''P4'']
      ''2025-09-26'' ''2025-09-28'' guests2 ''RUB''
   = Inr (groupCheapest Map.empty
            [stay ''P1'' (Some 10000) None ''x'', stay ''P2'' None (Some 8000) ''y'',
             stay ''P4'' (Some 6000) None ''z''])"
  by (simp add: getCheapestByPropertyIds_def chunkLoop.simps CHUNK_def upListing_def upDown_def
        searchBody_def stay_def)

lemma listing_content:
  "map (contentFor upListing listingWorld) [''P1'', ''P2'', ''P3'', ''P4'']
     = [Some (contentOf ''P1'' ''Cached name''), Some (contentOf ''P2'' ''Hotel''),
        Some (contentOf ''P3'' ''Hotel''), None]"
  by (simp add: contentFor_def listingWorld_def emptyWorld_def upListing_def upDown_def)

lemma listing_first:
  "map (\<lambda>p. firstCheapest p
         [stay ''P1'' (Some 10000) None ''x'', stay ''P2'' None (Some 8000) ''y'',
          stay ''P4'' (Some 6000) None ''z''])
     [''P1'', ''P2'', ''P3'', ''P4'']
   = [Some (stay ''P1'' (Some 10000) None ''x''), Some (stay ''P2'' None (Some 8000) ''y''),
      None, Some (stay ''P4'' (Some 6000) None ''z'')]"
  by (simp add: firstCheapest_def totalPrice_def stay_def)

lemma listing_hasCard:
  "filter (hasCard upListing listingWorld ''city'' ''2025-09-26'' ''2025-09-28'' guests2 opts4)
     [''P1'', ''P2'', ''P3'', ''P4''] = [''P1'', ''P2'']"
  using listing_content listing_first
  by (simp add: hasCard_def listing_offers)

lemma listing_nights: "diffNights (dateMsIn utc) ''2025-09-26'' ''2025-09-28'' = 2"
proof -
  have v: "calendarDate (2025, 9, 26)" "calendarDate (2025, 9, 28)"
    by (simp_all add: calendarDate_def daysInMonth_def leapYear_def)
  have f: "formatDate (2025, 9, 26) = ''2025-09-26''" "formatDate (2025, 9, 28) = ''2025-09-28''"
    by (simp_all add: formatDate_def pad_def showNat.simps digitChar_def)
  have c: "calendarDays (2025, 9, 26) (2025, 9, 28) = 2"
    by (simp add: calendarDays_def dayNumber_closed DayFromYear_def monthStart_def leapYear_def)
  have "diffNights (dateMsIn utc) (formatDate (2025, 9, 26)) (formatDate (2025, 9, 28))
      = max 1 (calendarDays (2025, 9, 26) (2025, 9, 28))"
    by (rule diffNights_calendarDays [OF v]) (simp add: utc_def)
  then show ?thesis
    unfolding f c by simp
qed

lemma listing_cardOf:
  "cardOf upListing listingWorld ''city'' ''2025-09-26'' ''2025-09-28'' guests2 opts4 2 ''P1'' = cardP1"
  "cardOf upListing listingWorld ''city'' ''2025-09-26'' ''2025-09-28'' guests2 opts4 2 ''P2'' = cardP2"
  using listing_content listing_first
  by (simp_all add: cardOf_def listing_offers buildCard_def contentOf_def stay_def rsTotal_def
        perNightPrice_def js_div_def Math_round_def Math_max1_def currencyOf_def cardP1_def
        cardP2_def)

lemma listing_run:
  "fst (getHotelsList upListing (dateMsIn utc) listingWorld ''city'' ''2025-09-26'' ''2025-09-28''
          guests2 opts4) = Inr [cardP2, cardP1]"
proof -
  have g: "geoGet upListing ''city'' = Inr (Some [''P1'', ''P2'', ''P3'', ''P4'', ''P5''])"
    by (simp add: upListing_def upDown_def)
  have cur: "listCurrency opts4 = ''RUB''"
    by (simp add: listCurrency_def opts4_def)
  have s: "sort_key price_value [cardP1, cardP2] = [cardP2, cardP1]"
    by (simp add: cardP1_def cardP2_def)
  have c: "getCheapestByPropertyIds (searchPost upListing) (requestedIds upListing ''city'' opts4)
      ''2025-09-26'' ''2025-09-28'' guests2 (listCurrency opts4)
      = Inr (groupCheapest Map.empty
            [stay ''P1'' (Some 10000) None ''x'', stay ''P2'' None (Some 8000) ''y'',
             stay ''P4'' (Some 6000) None ''z''])"
    unfolding listing_requested cur by (rule listing_cheapest)
  show ?thesis
    unfolding getHotelsList_run [OF g c] listing_requested listing_hasCard listing_nights
    by (simp only: list.map listing_cardOf s)
qed

text \<open>
  The geo endpoint lists P1 to P5 and the limit is 4, so P1 to P4 are requested. P1 has
  content in the cache and an offer of 10000 for two nights; P2's content is fetched and
  its offer is 8000; P3 has content but no offer (the spec's scenario); P4 has an offer
  but its content cannot be fetched. The listing is the card of P2 at 4000 per night,
  then the card of P1 at 5000 per night.
\<close>

theorem getHotelsList_cards_witness:
  "fst (getHotelsList upListing (dateMsIn utc) listingWorld ''city'' ''2025-09-26'' ''2025-09-28''
          guests2 opts4) = Inr [cardP2, cardP1]
   \<and> requestedIds upListing ''city'' opts4 = [''P1'', ''P2'', ''P3'', ''P4'']
   \<and> map (contentFor upListing listingWorld) [''P1'', ''P2'', ''P3'', ''P4'']
       = [Some (contentOf ''P1'' ''Cached name''), Some (contentOf ''P2'' ''Hotel''),
          Some (contentOf ''P3'' ''Hotel''), None]
   \<and> map (\<lambda>p. firstCheapest p
             (pricedOffers upListing ''city'' ''2025-09-26'' ''2025-09-28'' guests2 opts4))
         [''P1'', ''P2'', ''P3'', ''P4'']
       = [Some (stay ''P1'' (Some 10000) None ''x''), Some (stay ''P2'' None (Some 8000) ''y''),
          None, Some (stay ''P4'' (Some 6000) None ''z'')]
   \<and> mset [cardP2, cardP1] = mset [cardP1, cardP2]
   \<and> length [cardP2, cardP1] = length [''P1'', ''P2'']
   \<and> map price_value [cardP2, cardP1] = [Num 4000, Num 5000]
   \<and> sorted (map price_value [cardP2, cardP1])"
proof -
  note t = getHotelsList_cards [OF listing_run]
  have p: "map price_value [cardP2, cardP1] = [Num 4000, Num 5000]"
    by (simp add: cardP1_def cardP2_def)
  have m: "mset [cardP2, cardP1] = mset [cardP1, cardP2]"
    by simp
  have l: "length [cardP2, cardP1] = length [''P1'', ''P2'']"
    by simp
  from t have "sorted (map price_value [cardP2, cardP1])"
    by blast
  then show ?thesis
    using listing_run listing_requested listing_content listing_first p m l
    unfolding listing_offers by blast
qed

section \<open>The access token\<close>

text \<open>
  Claim C2 says that a token issued with \<open>expires_in = E\<close> is not returned once
  \<open>E - margin\<close> seconds (\<open>margin \<ge> 60\<close>) have passed. First, the time to live is
  never below 60 seconds: a token issued at second 1000 with \<open>E = 30\<close> is still returned
  45 seconds later, by both methods. Second, a token that \<open>getAccessToken\<close> finds in
  the shared store is put in memory with no expiry: issued with \<open>E = 3600\<close>, read again
  through \<open>getAccessToken\<close> ten seconds later, it is returned by
  \<open>getValidAccessToken\<close> two hours after it was issued.
\<close>

theorem token_reuse_counterexample:
  "fst (getValidAccessToken (Some (issued ''T1'' 30)) 1000000 initialOAuth) = Inr ''T1''
   \<and> 1000000 + (30 - 60) * 1000 \<le> (1045000::int)
   \<and> fst (getValidAccessToken None 1045000
        (snd (getValidAccessToken (Some (issued ''T1'' 30)) 1000000 initialOAuth))) = Inr ''T1''
   \<and> fst (getAccessToken None 1045000
        (snd (getValidAccessToken (Some (issued ''T1'' 30)) 1000000 initialOAuth))) = Inr ''T1''
   \<and> fst (getValidAccessToken (Some (issued ''T1'' 3600)) 1000000 initialOAuth) = Inr ''T1''
   \<and> 1000000 + (3600 - 60) * 1000 \<le> (8200000::int)
   \<and> fst (getValidAccessToken None 8200000
        (snd (getAccessToken None 1010000
          (snd (getValidAccessToken (Some (issued ''T1'' 3600)) 1000000 initialOAuth))))) = Inr ''T1''"
  by (simp add: getValidAccessToken_def getAccessToken_def memoryValid_def redisGetToken_def
        initialOAuth_def issued_def tokenTtl_def Let_def)

text \<open>
  Claim C2, amended. A non-empty token issued by the token endpoint at \<open>t0\<close> with
  \<open>expires_in = e\<close> (the shared store holding no live token) is cached in both tiers
  until \<open>t0 + max (e - 120) 60\<close> seconds: a margin of 120 seconds when \<open>e \<ge> 180\<close>, of
  at least 60 seconds when \<open>e \<ge> 120\<close>. Before that instant \<open>getValidAccessToken\<close>
  returns the token and changes nothing; from that instant on it does not answer from
  a cache: it returns what the token endpoint then answers.
\<close>

theorem token_ttl:
  assumes "0 \<le> t0" and "tok \<noteq> []" and "redisGetToken t0 st = None"
  shows "getAccessToken (Some \<lparr> access_token = tok, expires_in = e \<rparr>) t0 st =
           (Inr tok,
            st\<lparr> redisToken := Some (tok, t0 + max (e - 120) 60 * 1000),
                memoryToken := Some tok,
                memoryTokenExpiresAt := Some (t0 + max (e - 120) 60 * 1000) \<rparr>)
    \<and> (\<forall>t r. t < t0 + max (e - 120) 60 * 1000 \<longrightarrow>
          getValidAccessToken r t
            (snd (getAccessToken (Some \<lparr> access_token = tok, expires_in = e \<rparr>) t0 st))
          = (Inr tok, snd (getAccessToken (Some \<lparr> access_token = tok, expires_in = e \<rparr>) t0 st)))
    \<and> (\<forall>t r. t0 + max (e - 120) 60 * 1000 \<le> t \<longrightarrow>
          fst (getValidAccessToken r t
            (snd (getAccessToken (Some \<lparr> access_token = tok, expires_in = e \<rparr>) t0 st)))
          = (case r of None \<Rightarrow> Inl (OAuthError ''OAuth authentication failed'')
             | Some response \<Rightarrow> Inr (access_token response)))
    \<and> (120 \<le> e \<longrightarrow> 60 \<le> e - max (e - 120) 60)
    \<and> (180 \<le> e \<longrightarrow> max (e - 120) 60 = e - 120)"
proof -
  let ?x = "t0 + max (e - 120) 60 * 1000"
  let ?st1 = "st\<lparr> redisToken := Some (tok, ?x), memoryToken := Some tok,
                  memoryTokenExpiresAt := Some ?x \<rparr>"
  have pos: "?x \<noteq> 0"
  proof (cases "e - 120 \<le> 60")
    case True
    then have "max (e - 120) 60 = 60" by simp
    then show ?thesis using assms(1) by simp
  next
    case False
    then have "max (e - 120) 60 = e - 120" by simp
    then show ?thesis using assms(1) False by simp
  qed
  have issue: "getAccessToken (Some \<lparr> access_token = tok, expires_in = e \<rparr>) t0 st = (Inr tok, ?st1)"
    using assms(3) by (simp add: getAccessToken_def tokenTtl_def Let_def)
  have before: "getValidAccessToken r t ?st1 = (Inr tok, ?st1)" if "t < ?x" for t r
    using that assms(2) by (simp add: getValidAccessToken_def memoryValid_def)
  have after: "fst (getValidAccessToken r t ?st1)
      = (case r of None \<Rightarrow> Inl (OAuthError ''OAuth authentication failed'')
         | Some response \<Rightarrow> Inr (access_token response))" if "?x \<le> t" for t r
    using that pos
    by (simp add: getValidAccessToken_def memoryValid_def redisGetToken_def getAccessToken_def
          Let_def split: option.splits)
  show ?thesis
    unfolding issue snd_conv using before after by auto
qed

theorem token_ttl_witness:
  "getAccessToken (Some \<lparr> access_token = ''T1'', expires_in = 3600 \<rparr>) 1000000 initialOAuth
     = (Inr ''T1'', \<lparr> memoryToken = Some ''T1'', memoryTokenExpiresAt = Some 4480000,
                      redisToken = Some (''T1'', 4480000) \<rparr>)
   \<and> fst (getValidAccessToken None 4479999
        (snd (getAccessToken (Some \<lparr> access_token = ''T1'', expires_in = 3600 \<rparr>) 1000000 initialOAuth)))
     = Inr ''T1''
   \<and> fst (getValidAccessToken (Some (issued ''T2'' 3600)) 4480000
        (snd (getAccessToken (Some \<lparr> access_token = ''T1'', expires_in = 3600 \<rparr>) 1000000 initialOAuth)))
     = Inr ''T2''"
proof -
  have a: "(0::int) \<le> 1000000" and b: "''T1'' \<noteq> []" and c: "redisGetToken 1000000 initialOAuth = None"
    by (simp_all add: redisGetToken_def initialOAuth_def)
  note w = token_ttl [OF a b c, of 3600]
  have x: "(1000000::int) + max (3600 - 120) 60 * 1000 = 4480000" by simp
  show ?thesis
    using w unfolding x
    by (auto simp: initialOAuth_def issued_def)
qed

section \<open>The image proxy\<close>

subsection \<open>UTF-8 and base64url\<close>

lemma split64:
  fixes cp :: nat
  obtains m s w t where
    "cp mod 64 = m" "cp div 64 mod 64 = s" "cp div 4096 mod 64 = w" "cp div 262144 = t"
    "m < 64" "s < 64" "w < 64"
    "cp div 4096 = t * 64 + w" "cp div 64 = t * 4096 + w * 64 + s"
    "cp = t * 262144 + w * 4096 + s * 64 + m"
proof -
  have a: "cp div 4096 = cp div 64 div 64" "cp div 262144 = cp div 64 div 64 div 64"
    by (simp_all add: div_mult2_eq [symmetric])
  have b: "cp div 64 div 64 = cp div 64 div 64 div 64 * 64 + cp div 64 div 64 mod 64"
    by simp
  have c: "cp div 64 = cp div 64 div 64 * 64 + cp div 64 mod 64"
    by simp
  have d: "cp = cp div 64 * 64 + cp mod 64"
    by simp
  show ?thesis
  proof (rule that [of "cp mod 64" "cp div 64 mod 64" "cp div 4096 mod 64" "cp div 262144"])
    show "cp div 4096 = cp div 262144 * 64 + cp div 4096 mod 64"
      unfolding a using b .
    then show "cp div 64 = cp div 262144 * 4096 + cp div 4096 mod 64 * 64 + cp div 64 mod 64"
      unfolding a using c by linarith
    then show "cp = cp div 262144 * 262144 + cp div 4096 mod 64 * 4096 + cp div 64 mod 64 * 64 + cp mod 64"
      using d by linarith
  qed simp_all
qed

lemma utf8Slice_1:
  assumes "cp < 0x80"
  shows "utf8Slice (utf8Bytes cp @ bs) = cp # utf8Slice bs"
  using assms by (simp add: utf8Bytes_def)

lemma utf8Slice_2:
  assumes "0x80 \<le> cp" "cp < 0x800"
  shows "utf8Slice (utf8Bytes cp @ bs) = cp # utf8Slice bs"
proof -
  obtain m s w t where x: "cp mod 64 = m" "cp div 64 mod 64 = s" "cp div 4096 mod 64 = w"
    "cp div 262144 = t" "m < 64" "s < 64" "w < 64"
    "cp div 4096 = t * 64 + w" "cp div 64 = t * 4096 + w * 64 + s"
    "cp = t * 262144 + w * 4096 + s * 64 + m"
    by (rule split64)
  have tw0: "t = 0" "w = 0"
    using assms x(5-7,10) by linarith+
  have tw: "t = 0" "w = 0" "2 \<le> s" "s < 32"
    using assms x(5-7,10) tw0 by simp_all
  have e: "utf8Bytes cp = [0xC0 + s, 0x80 + m]"
    using assms x(1,9) tw by (simp add: utf8Bytes_def)
  have c: "cp = s * 64 + m" using x(10) tw by simp
  show ?thesis
    unfolding e using tw x(5) by (simp add: cont_def c)
qed

lemma utf8Slice_3:
  assumes "0x800 \<le> cp" "cp < 0x10000" "\<not> isHigh cp" "\<not> isLow cp"
  shows "utf8Slice (utf8Bytes cp @ bs) = cp # utf8Slice bs"
proof -
  obtain m s w t where x: "cp mod 64 = m" "cp div 64 mod 64 = s" "cp div 4096 mod 64 = w"
    "cp div 262144 = t" "m < 64" "s < 64" "w < 64"
    "cp div 4096 = t * 64 + w" "cp div 64 = t * 4096 + w * 64 + s"
    "cp = t * 262144 + w * 4096 + s * 64 + m"
    by (rule split64)
  have t: "t = 0" "w < 16"
    using assms(2) x(5-7,10) by linarith+
  have lo: "w = 0 \<Longrightarrow> 32 \<le> s"
    using assms(1) x(5,10) t by simp
  have "cp < 0xD800 \<or> 0xDFFF < cp"
    using assms(3,4) unfolding isHigh_def isLow_def by linarith
  then have hi: "w = 13 \<Longrightarrow> s < 32"
    using x(5,6,10) t by auto
  have e: "utf8Bytes cp = [0xE0 + w, 0x80 + s, 0x80 + m]"
    using assms x(1,2,8) t by (simp add: utf8Bytes_def)
  have c: "cp = w * 4096 + s * 64 + m" using x(10) t by simp
  show ?thesis
    unfolding e using t lo hi x(5,6) by (auto simp: cont_def c)
qed

lemma utf8Slice_4:
  assumes "0x10000 \<le> cp" "cp < 0x110000"
  shows "utf8Slice (utf8Bytes cp @ bs) = unitsOf cp @ utf8Slice bs"
proof -
  obtain m s w t where x: "cp mod 64 = m" "cp div 64 mod 64 = s" "cp div 4096 mod 64 = w"
    "cp div 262144 = t" "m < 64" "s < 64" "w < 64"
    "cp div 4096 = t * 64 + w" "cp div 64 = t * 4096 + w * 64 + s"
    "cp = t * 262144 + w * 4096 + s * 64 + m"
    by (rule split64)
  have t: "t < 5"
    using assms(2) x(10) by linarith
  have lo: "t = 0 \<Longrightarrow> 16 \<le> w"
    using assms(1) x(5,6,10) by simp
  have hi: "t = 4 \<Longrightarrow> w < 16"
    using assms(2) x(10) by simp
  have e: "utf8Bytes cp = [0xF0 + t, 0x80 + w, 0x80 + s, 0x80 + m]"
    using assms x(1-4) by (simp add: utf8Bytes_def)
  note c = x(10)
  show ?thesis
    unfolding e using t lo hi x(5-7) by (auto simp: cont_def c)
qed

lemma utf8Bytes_lt:
  assumes "cp < 0x110000"
  shows "\<forall>b \<in> set (utf8Bytes cp). b < 256"
proof -
  obtain m s w t where x: "cp mod 64 = m" "cp div 64 mod 64 = s" "cp div 4096 mod 64 = w"
    "cp div 262144 = t" "m < 64" "s < 64" "w < 64"
    "cp div 4096 = t * 64 + w" "cp div 64 = t * 4096 + w * 64 + s"
    "cp = t * 262144 + w * 4096 + s * 64 + m"
    by (rule split64)
  have t: "t < 5" using assms x(10) by linarith
  have a: "cp < 0x800 \<Longrightarrow> cp div 64 < 32" "cp < 0x10000 \<Longrightarrow> cp div 4096 < 16"
    by (simp_all add: less_mult_imp_div_less)
  show ?thesis
    using x(1-7) t a by (auto simp: utf8Bytes_def)
qed

lemma pair_cp:
  assumes "isHigh u" "isLow v"
  shows "0x10000 \<le> 0x10000 + (u - 0xD800) * 1024 + (v - 0xDC00)"
    and "0x10000 + (u - 0xD800) * 1024 + (v - 0xDC00) < 0x110000"
    and "unitsOf (0x10000 + (u - 0xD800) * 1024 + (v - 0xDC00)) = [u, v]"
proof -
  define h l where "h = u - 0xD800" and "l = v - 0xDC00"
  have h: "u = 0xD800 + h" "h < 1024" and l: "v = 0xDC00 + l" "l < 1024"
    using assms unfolding isHigh_def isLow_def h_def l_def by linarith+
  show "0x10000 \<le> 0x10000 + (u - 0xD800) * 1024 + (v - 0xDC00)" by simp
  show "0x10000 + (u - 0xD800) * 1024 + (v - 0xDC00) < 0x110000"
    using h l by simp
  show "unitsOf (0x10000 + (u - 0xD800) * 1024 + (v - 0xDC00)) = [u, v]"
    using h l by (simp add: unitsOf_def)
qed

lemma unbase64_b64char: "i < 64 \<Longrightarrow> unbase64 (b64char i) = Some i"
  by (auto simp: unbase64_def b64char_def)

lemma b64char_not_pad: "b64char i \<noteq> 61"
  by (auto simp: b64char_def)

lemma sextetsOf_lt: "\<forall>b \<in> set bytes. b < 256 \<Longrightarrow> \<forall>s \<in> set (sextetsOf bytes). s < 64"
  by (induction bytes rule: sextetsOf.induct) (auto simp: less_mult_imp_div_less)

lemma map_filter_unbase64:
  "\<forall>s \<in> set ss. s < 64 \<Longrightarrow> List.map_filter unbase64 (map b64char ss) = ss"
  by (induction ss) (simp_all add: List.map_filter_simps unbase64_b64char)

lemma takeWhile_b64: "takeWhile (\<lambda>u. u \<noteq> 61) (map b64char ss) = map b64char ss"
  by (rule takeWhile_eq_all_conv [THEN iffD2]) (auto simp: b64char_not_pad)

lemma byte_div:
  fixes b :: nat
  assumes "b < 256"
  shows "b div 16 div 16 = 0" "b div 16 mod 16 = b div 16" "b div 64 div 4 = 0"
    "b div 64 mod 4 = b div 64"
  using assms by (simp_all add: div_mult2_eq [symmetric] less_mult_imp_div_less)

lemma bytesOf_sextetsOf: "\<forall>b \<in> set bytes. b < 256 \<Longrightarrow> bytesOf (sextetsOf bytes) = bytes"
  by (induction bytes rule: sextetsOf.induct) (simp_all add: byte_div)

lemma base64_roundtrip:
  "\<forall>b \<in> set bytes. b < 256 \<Longrightarrow> base64Decode (base64urlEncode bytes) = bytes"
  by (simp add: base64Decode_def base64urlEncode_def takeWhile_b64 map_filter_unbase64
        sextetsOf_lt bytesOf_sextetsOf)

lemma unitBytes_plain:
  assumes "u < 0x10000" "\<not> isHigh u" "\<not> isLow u"
  shows "utf8Slice (unitBytes u @ bs) = u # utf8Slice bs"
    and "\<forall>b \<in> set (unitBytes u). b < 256"
proof -
  have e: "unitBytes u = utf8Bytes u"
    using assms by (simp add: unitBytes_def)
  consider "u < 0x80" | "0x80 \<le> u" "u < 0x800" | "0x800 \<le> u"
    by linarith
  then show "utf8Slice (unitBytes u @ bs) = u # utf8Slice bs"
    unfolding e using assms
    by cases (simp_all add: utf8Slice_1 utf8Slice_2 utf8Slice_3)
  show "\<forall>b \<in> set (unitBytes u). b < 256"
    unfolding e using assms(1) by (intro utf8Bytes_lt) simp
qed

lemma utf8_roundtrip:
  "wellFormed us \<Longrightarrow>
     utf8Slice (utf8Write us @ bs) = us @ utf8Slice bs \<and> (\<forall>b \<in> set (utf8Write us). b < 256)"
proof (induction us rule: utf8Write.induct)
  case 1
  show ?case by simp
next
  case (2 u)
  then show ?case
    using unitBytes_plain(1) [of u bs] unitBytes_plain(2) [of u] by simp
next
  case (3 u v vs)
  show ?case
  proof (cases "isHigh u")
    case True
    with "3.prems" have v: "isLow v" and wf: "wellFormed vs"
      by simp_all
    note p = pair_cp [OF True v]
    from "3.IH"(1) True v wf
    have ih: "utf8Slice (utf8Write vs @ bs) = vs @ utf8Slice bs"
      "\<forall>b \<in> set (utf8Write vs). b < 256"
      by simp_all
    show ?thesis
      using True v ih utf8Slice_4 [OF p(1,2), of "utf8Write vs @ bs"] utf8Bytes_lt [OF p(2)]
      by (auto simp: p(3))
  next
    case False
    with "3.prems" have u: "u < 0x10000" "\<not> isLow u" and wf: "wellFormed (v # vs)"
      by simp_all
    from "3.IH"(2) False wf
    have ih: "utf8Slice (utf8Write (v # vs) @ bs) = (v # vs) @ utf8Slice bs"
      "\<forall>b \<in> set (utf8Write (v # vs)). b < 256"
      by simp_all
    show ?thesis
      using False ih unitBytes_plain(1) [OF u(1) False u(2), of "utf8Write (v # vs) @ bs"]
        unitBytes_plain(2) [OF u(1) False u(2)]
      by auto
  qed
qed

text \<open>
  Claim C8, amended. For every well-formed URL string (each element a UTF-16 code unit,
  each surrogate half of a pair), whatever characters it holds, decoding the proxy token
  made from it gives the URL back.
\<close>

theorem decodeUrl_encodeUrl:
  assumes "wellFormed url"
  shows "decodeUrl (encodeUrl url) = url"
proof -
  from utf8_roundtrip [OF assms, of "[]"]
  have a: "utf8Slice (utf8Write url) = url" and b: "\<forall>b \<in> set (utf8Write url). b < 256"
    by simp_all
  show ?thesis
    by (simp add: decodeUrl_def encodeUrl_def base64_roundtrip [OF b] a)
qed

text \<open>
  Claim C8 is stated for every URL string. A string may hold an unpaired surrogate, which
  \<open>Buffer.from\<close> writes as U+FFFD: the token of the one-unit string U+D800 is
  \<open>77-9\<close>, and it decodes to U+FFFD.
\<close>

theorem decodeUrl_encodeUrl_surrogate_counterexample:
  "encodeUrl [0xD800] = [55, 55, 45, 57] \<and> decodeUrl (encodeUrl [0xD800]) = [0xFFFD]
   \<and> decodeUrl (encodeUrl [0xD800]) \<noteq> [0xD800]"
  by (simp add: encodeUrl_def decodeUrl_def base64urlEncode_def base64Decode_def
        unitBytes_def isHigh_def isLow_def b64char_def unbase64_def List.map_filter_simps cont_def)

text \<open>
  A string with a Cyrillic letter, the euro sign, an emoji (a surrogate pair), \<open>?\<close>,
  \<open>&\<close>, \<open>%\<close> and a space.
\<close>

theorem decodeUrl_encodeUrl_witness:
  "wellFormed [104, 0x434, 0x20AC, 0xD83D, 0xDE00, 63, 38, 37, 32]
   \<and> decodeUrl (encodeUrl [104, 0x434, 0x20AC, 0xD83D, 0xDE00, 63, 38, 37, 32])
       = [104, 0x434, 0x20AC, 0xD83D, 0xDE00, 63, 38, 37, 32]"
proof -
  have wf: "wellFormed [104, 0x434, 0x20AC, 0xD83D, 0xDE00, 63, 38, 37, 32]"
    by (simp add: isHigh_def isLow_def)
  show ?thesis
    using wf decodeUrl_encodeUrl [OF wf] by simp
qed

subsection \<open>Requests by token\<close>

lemma decodeUrl_bang: "decodeUrl [33, 33, 33] = []"
  by (simp add: decodeUrl_def base64Decode_def unbase64_def List.map_filter_simps)

text \<open>
  Claim C9 at a malformed token. The token \<open>!!!\<close> has no base64 character; it decodes,
  without an exception, to the empty URL, and the request fails in the download with
  \<open>Failed to fetch image\<close>. No token at all makes \<open>getImageByEncodedUrl\<close> fail with
  \<open>Invalid image URL\<close>.
\<close>

theorem getImageByEncodedUrl_malformed_token:
  "decodeUrl [33, 33, 33] = []
   \<and> fst (getImageByEncodedUrl
        \<lparr> urlToHash = h, download = (\<lambda>url. Inl (UpstreamError ''Invalid URL'')) \<rparr>
        Map.empty [33, 33, 33]) = Inl (NotFoundException ''Failed to fetch image'')
   \<and> fst (getImageByEncodedUrl env files encodedUrl) \<noteq> Inl (NotFoundException ''Invalid image URL'')"
proof (intro conjI)
  show "decodeUrl [33, 33, 33] = []" by (rule decodeUrl_bang)
  show "fst (getImageByEncodedUrl
        \<lparr> urlToHash = h, download = (\<lambda>url. Inl (UpstreamError ''Invalid URL'')) \<rparr>
        Map.empty [33, 33, 33]) = Inl (NotFoundException ''Failed to fetch image'')"
    by (simp add: getImageByEncodedUrl_def decodeUrlTry_def decodeUrl_bang findCachedFile_def
          downloadAndCache_def)
  show "fst (getImageByEncodedUrl env files encodedUrl) \<noteq> Inl (NotFoundException ''Invalid image URL'')"
    by (auto simp: getImageByEncodedUrl_def decodeUrlTry_def downloadAndCache_def Let_def
          split: option.splits sum.splits prod.splits)
qed

section \<open>Offers of one property\<close>

lemma showInt_2: "showInt 2 = ''2''"
  by (simp add: showInt_def showNat.simps digitChar_def)

lemma getPropertyContent_stores:
  "roomStaysStore (snd (getPropertyContent up w pid refresh)) = roomStaysStore w"
  "inFlightRequests (snd (getPropertyContent up w pid refresh)) = inFlightRequests w"
  by (auto simp: getPropertyContent_def fetchAndCacheContent_def Let_def
        split: option.splits sum.splits)

text \<open>
  The three branches of \<open>getRoomStaysWithDedup\<close>, one call at a time. A caller that
  finds a pending fetch under its key makes no call of its own and gets that fetch's
  outcome: the same error, or its room stays, filtered by the requested property id. A
  caller that finds neither a cache entry nor a pending fetch fetches; on success it
  returns the room stays filtered by the requested property id and stores that filtered
  list under the cache key; in either case it leaves no pending entry under the key. A
  caller that finds a cache entry returns it as stored.
\<close>

lemma getRoomStaysWithDedup_follower:
  assumes "roomStaysStore w (roomStaysCacheKey pid a d guests cur) = None"
    and "inFlightRequests w (requestKey pid a d guests cur) = Some outcome"
  shows "getRoomStaysWithDedup up w pid a d guests cur =
           (case outcome of
              Inl e \<Rightarrow> Inl e
            | Inr result \<Rightarrow>
                Inr (filter (\<lambda>rs. propertyId rs = pid) (case result of Some l \<Rightarrow> l | None \<Rightarrow> [])),
            w)"
  using assms
  by (simp add: getRoomStaysWithDedup_def roomStaysCacheKey_def Let_def split: sum.splits)

lemma getRoomStaysWithDedup_leader:
  assumes "roomStaysStore w (roomStaysCacheKey pid a d guests cur) = None"
    and "inFlightRequests w (requestKey pid a d guests cur) = None"
  shows "inFlightRequests (snd (getRoomStaysWithDedup up w pid a d guests cur))
           (requestKey pid a d guests cur) = None"
  using assms
  by (simp add: getRoomStaysWithDedup_def roomStaysCacheKey_def Let_def split: sum.splits)

lemma getRoomStaysWithDedup_miss:
  assumes "roomStaysStore w (roomStaysCacheKey pid a d guests cur) = None"
    and "inFlightRequests w (requestKey pid a d guests cur) = None"
    and "fetchRoomStays up pid a d (sortedGuests guests) cur = Inr result"
  shows "fst (getRoomStaysWithDedup up w pid a d guests cur)
           = Inr (filter (\<lambda>rs. propertyId rs = pid) (case result of Some l \<Rightarrow> l | None \<Rightarrow> []))"
    and "roomStaysStore (snd (getRoomStaysWithDedup up w pid a d guests cur))
           (roomStaysCacheKey pid a d guests cur)
           = Some (filter (\<lambda>rs. propertyId rs = pid) (case result of Some l \<Rightarrow> l | None \<Rightarrow> []))"
  using assms
  by (simp_all add: getRoomStaysWithDedup_def roomStaysCacheKey_def Let_def)

lemma getRoomStaysWithDedup_hit:
  "roomStaysStore w (roomStaysCacheKey pid a d guests cur) = Some c \<Longrightarrow>
     getRoomStaysWithDedup up w pid a d guests cur = (Inr c, w)"
  by (simp add: getRoomStaysWithDedup_def roomStaysCacheKey_def Let_def)

text \<open>
  The variant of \<open>offer.service.ts\<close> has no cache: every offer it returns is built from
  a room stay of the requested property.
\<close>

lemma getPropertyOffersDirect_roomStays:
  assumes "fst (getPropertyOffersDirect up dateMs w pid a d guests optCurrency) = Inr r"
  shows "\<exists>cr stays.
         fst (getPropertyContent up w pid False) = Inr cr
         \<and> resp_offers r = map (\<lambda>rs. mapRoomStayToOffer (data cr) rs (diffNights dateMs a d)) stays
         \<and> list_all (\<lambda>rs. propertyId rs = pid) stays"
  using assms
  by (auto simp: getPropertyOffersDirect_def offersResponse_def Let_def list_all_iff
        split: sum.splits prod.splits)

subsection \<open>Two requests under one key\<close>

lemma key_collision:
  "requestKey ''h'' ''2025-09-26'' ''2025-09-28'' guests2c weirdCurrency
     = requestKey weirdId ''2025-09-26'' ''2025-09-28'' guests2c ''RUB''"
  by (simp add: requestKey_def guests2c_def showInt_2 weirdCurrency_def weirdId_def)

lemma sortedGuests2c: "sortedGuests guests2c = guests2c"
  by (simp add: sortedGuests_def guests2c_def)

lemma first_call:
  "getPropertyOffers upOffers (dateMsIn utc) emptyWorld ''h'' ''2025-09-26'' ''2025-09-28''
      guests2c (Some weirdCurrency)
   = (Inr (offersResponse (contentOf ''h'' ''Hotel'')
             [stay ''h'' (Some 4000) None ''a'', stay ''h'' (Some 6000) None ''b''] 2 guests2c
             weirdCurrency),
      \<lparr> contentStore = [''hotel:h'' \<mapsto> contentOf ''h'' ''Hotel''],
        roomStaysStore = [roomStaysCacheKey ''h'' ''2025-09-26'' ''2025-09-28'' guests2c weirdCurrency
                          \<mapsto> [stay ''h'' (Some 4000) None ''a'', stay ''h'' (Some 6000) None ''b'']],
        inFlightRequests = Map.empty,
        contentFetches = [''h''] \<rparr>)"
proof -
  have c: "getPropertyContent upOffers emptyWorld ''h'' False
      = (Inr \<lparr> cached = False, data = contentOf ''h'' ''Hotel'', stale = None \<rparr>,
         emptyWorld\<lparr> contentFetches := [''h''],
            contentStore := [''hotel:h'' \<mapsto> contentOf ''h'' ''Hotel''] \<rparr>)"
    by (simp add: getPropertyContent_def fetchAndCacheContent_def contentCacheKey_def
          upOffers_def upDown_def emptyWorld_def Let_def)
  have f: "fetchRoomStays upOffers ''h'' ''2025-09-26'' ''2025-09-28'' guests2c weirdCurrency
      = Inr (Some [stay ''h'' (Some 4000) None ''a'', stay ''other'' (Some 5000) None ''x'',
                   stay ''h'' (Some 6000) None ''b''])"
    by (simp add: fetchRoomStays_def upOffers_def upDown_def)
  show ?thesis
    unfolding getPropertyOffers_def c
    by (simp add: getRoomStaysWithDedup_def sortedGuests2c f roomStaysCacheKey_def
          emptyWorld_def listing_nights stay_def Let_def)
qed

text \<open>
  Claim C10 fails on the code. The comment in \<open>getRoomStaysWithDedup\<close> calls the
  request key unique for the request, and both other branches filter the room stays by
  the requested property id; the cache branch returns the entry as it is. The key
  joins its parts with colons, and a property id or a currency may hold colons: the
  request for property \<open>h\<close> with the currency \<open>RUB:2025-09-26:2025-09-28:2::RUB\<close> and the
  request for the property \<open>h:2025-09-26:2025-09-28:2::RUB\<close> with the currency \<open>RUB\<close>
  have the same key. The first request fetches, drops the room stay of another property
  that the pricing call returned, and stores the two room stays of \<open>h\<close>. The second
  request then finds that entry and returns two offers built from room stays whose
  \<open>propertyId\<close> is \<open>h\<close>, not the property requested.
\<close>

theorem getPropertyOffers_foreign_roomStay:
  "weirdId \<noteq> ''h''
   \<and> requestKey weirdId ''2025-09-26'' ''2025-09-28'' guests2c ''RUB''
       = requestKey ''h'' ''2025-09-26'' ''2025-09-28'' guests2c weirdCurrency
   \<and> fst (getPropertyOffers upOffers (dateMsIn utc) emptyWorld ''h'' ''2025-09-26'' ''2025-09-28''
            guests2c (Some weirdCurrency))
       = Inr (offersResponse (contentOf ''h'' ''Hotel'')
                [stay ''h'' (Some 4000) None ''a'', stay ''h'' (Some 6000) None ''b''] 2 guests2c
                weirdCurrency)
   \<and> roomStaysStore worldAfterFirst
         (roomStaysCacheKey weirdId ''2025-09-26'' ''2025-09-28'' guests2c ''RUB'')
       = Some [stay ''h'' (Some 4000) None ''a'', stay ''h'' (Some 6000) None ''b'']
   \<and> fst (getPropertyOffers upOffers (dateMsIn utc) worldAfterFirst weirdId ''2025-09-26'' ''2025-09-28''
            guests2c (Some ''RUB''))
       = Inr (offersResponse (contentOf weirdId ''Hotel'')
                [stay ''h'' (Some 4000) None ''a'', stay ''h'' (Some 6000) None ''b''] 2 guests2c ''RUB'')
   \<and> resp_offers (offersResponse (contentOf weirdId ''Hotel'')
                [stay ''h'' (Some 4000) None ''a'', stay ''h'' (Some 6000) None ''b''] 2 guests2c ''RUB'')
       = map (\<lambda>rs. mapRoomStayToOffer (contentOf weirdId ''Hotel'') rs 2)
           [stay ''h'' (Some 4000) None ''a'', stay ''h'' (Some 6000) None ''b'']
   \<and> map propertyId [stay ''h'' (Some 4000) None ''a'', stay ''h'' (Some 6000) None ''b'']
       = [''h'', ''h'']"
proof (intro conjI)
  let ?stays = "[stay ''h'' (Some 4000) None ''a'', stay ''h'' (Some 6000) None ''b'']"
  have w: "worldAfterFirst =
      \<lparr> contentStore = [''hotel:h'' \<mapsto> contentOf ''h'' ''Hotel''],
        roomStaysStore = [roomStaysCacheKey ''h'' ''2025-09-26'' ''2025-09-28'' guests2c weirdCurrency
                          \<mapsto> ?stays],
        inFlightRequests = Map.empty,
        contentFetches = [''h''] \<rparr>"
    by (simp add: worldAfterFirst_def first_call)
  have k: "roomStaysCacheKey weirdId ''2025-09-26'' ''2025-09-28'' guests2c ''RUB''
      = roomStaysCacheKey ''h'' ''2025-09-26'' ''2025-09-28'' guests2c weirdCurrency"
    unfolding roomStaysCacheKey_def by (simp add: key_collision)
  show "weirdId \<noteq> ''h''"
    by (simp add: weirdId_def)
  show "requestKey weirdId ''2025-09-26'' ''2025-09-28'' guests2c ''RUB''
       = requestKey ''h'' ''2025-09-26'' ''2025-09-28'' guests2c weirdCurrency"
    by (rule key_collision [symmetric])
  show "fst (getPropertyOffers upOffers (dateMsIn utc) emptyWorld ''h'' ''2025-09-26'' ''2025-09-28''
            guests2c (Some weirdCurrency))
       = Inr (offersResponse (contentOf ''h'' ''Hotel'') ?stays 2 guests2c weirdCurrency)"
    by (simp add: first_call)
  show "roomStaysStore worldAfterFirst
         (roomStaysCacheKey weirdId ''2025-09-26'' ''2025-09-28'' guests2c ''RUB'')
       = Some ?stays"
    by (simp add: w k)
  have c: "getPropertyContent upOffers worldAfterFirst weirdId False
      = (Inr \<lparr> cached = False, data = contentOf weirdId ''Hotel'', stale = None \<rparr>,
         worldAfterFirst\<lparr> contentFetches := [''h'', weirdId],
            contentStore := (contentStore worldAfterFirst)(''hotel:'' @ weirdId \<mapsto> contentOf weirdId ''Hotel'') \<rparr>)"
    by (simp add: w getPropertyContent_def fetchAndCacheContent_def contentCacheKey_def
          upOffers_def upDown_def weirdId_def Let_def)
  show "fst (getPropertyOffers upOffers (dateMsIn utc) worldAfterFirst weirdId ''2025-09-26'' ''2025-09-28''
            guests2c (Some ''RUB''))
       = Inr (offersResponse (contentOf weirdId ''Hotel'') ?stays 2 guests2c ''RUB'')"
  proof -
    let ?w1 = "worldAfterFirst\<lparr> contentFetches := [''h'', weirdId],
            contentStore := (contentStore worldAfterFirst)(''hotel:'' @ weirdId \<mapsto> contentOf weirdId ''Hotel'') \<rparr>"
    have "roomStaysStore ?w1 (roomStaysCacheKey weirdId ''2025-09-26'' ''2025-09-28'' guests2c ''RUB'')
        = Some ?stays"
      by (simp add: w k)
    from getRoomStaysWithDedup_hit [OF this, of upOffers]
    show ?thesis
      unfolding getPropertyOffers_def c
      by (simp add: listing_nights sortedGuests2c)
  qed
  show "resp_offers (offersResponse (contentOf weirdId ''Hotel'') ?stays 2 guests2c ''RUB'')
       = map (\<lambda>rs. mapRoomStayToOffer (contentOf weirdId ''Hotel'') rs 2) ?stays"
    by (simp add: offersResponse_def Let_def)
  show "map propertyId ?stays = [''h'', ''h'']"
    by (simp add: stay_def)
qed

end
